theory Spec2Isabelle
  imports Complex_Main "HOL-Library.Multiset"
begin

section \<open>JavaScript values and built-ins used by the charts\<close>

text \<open>
  The three chart components (\<open>GenreBarChart\<close>, \<open>RatingYearHeatmap\<close>, \<open>ParallelCoords\<close>)
  compute their aggregates inside \<open>useMemo\<close> callbacks from the loaded rows and the
  component's properties. The callbacks are pure; they are embedded here as HOL functions.

  A cell of a loaded row is a JavaScript value. Finite numbers are modelled as rationals
  (every finite double is one) and arithmetic on them is exact; the two infinities and
  NaN are separate constructors. \<open>Date\<close> cells are not modelled.
\<close>

datatype jsval =
    JUndefined
  | JNull
  | JBool bool
  | JNum rat
  | JNaN
  | JInf bool
  | JStr string

text \<open>
  An object is the list of its own properties in \<open>Object.keys\<close> order. Reading a
  property that is absent gives \<open>undefined\<close>, here \<open>None\<close>.
\<close>

type_synonym 'v obj = "(string \<times> 'v) list"

definition objectKeys :: "'v obj \<Rightarrow> string list" where
  "objectKeys r = map fst r"

definition getProp :: "'v obj \<Rightarrow> string \<Rightarrow> 'v option" where
  "getProp r k = map_of r k"

text \<open>\<open>r?.[k]\<close> on a row of cells: an absent property reads as \<open>undefined\<close>.\<close>

definition cell :: "jsval obj \<Rightarrow> string \<Rightarrow> jsval" where
  "cell r k = (case getProp r k of None \<Rightarrow> JUndefined | Some v \<Rightarrow> v)"

text \<open>
  \<open>String.prototype.toLowerCase\<close> on the ASCII letters; other characters are left as
  they are.
\<close>

definition isUpperChar :: "char \<Rightarrow> bool" where
  "isUpperChar c = (65 \<le> (of_char c :: nat) \<and> (of_char c :: nat) \<le> 90)"

definition lowerChar :: "char \<Rightarrow> char" where
  "lowerChar c = (if isUpperChar c then char_of ((of_char c :: nat) + 32) else c)"

definition toLowerCase :: "string \<Rightarrow> string" where
  "toLowerCase s = map lowerChar s"

text \<open>
  A JavaScript \<open>Map\<close>: entries in insertion order; \<open>set\<close> on a key that is present
  replaces the value in place, on a new key it appends. \<open>new Map(entries)\<close> sets the
  entries one after the other.
\<close>

type_synonym ('k, 'v) jsmap = "('k \<times> 'v) list"

fun mapSet :: "'k \<Rightarrow> 'v \<Rightarrow> ('k, 'v) jsmap \<Rightarrow> ('k, 'v) jsmap" where
  "mapSet k v [] = [(k, v)]"
| "mapSet k v ((k', v') # m) = (if k' = k then (k', v) # m else (k', v') # mapSet k v m)"

definition mapGet :: "('k, 'v) jsmap \<Rightarrow> 'k \<Rightarrow> 'v option" where
  "mapGet m k = map_of m k"

definition newMap :: "('k \<times> 'v) list \<Rightarrow> ('k, 'v) jsmap" where
  "newMap entries = foldl (\<lambda>m (k, v). mapSet k v m) [] entries"

text \<open>
  \<open>Array.prototype.slice(start, end)\<close> with integer arguments: a negative index counts
  from the end, and both are clamped to the array.
\<close>

definition relIndex :: "nat \<Rightarrow> int \<Rightarrow> nat" where
  "relIndex len i = (if i < 0 then nat (max (int len + i) 0) else min (nat i) len)"

definition slice :: "'a list \<Rightarrow> int \<Rightarrow> int \<Rightarrow> 'a list" where
  "slice xs s e = (let k = relIndex (length xs) s; final = relIndex (length xs) e
                   in take (final - k) (drop k xs))"

text \<open>
  \<open>Array.prototype.sort(cmp)\<close> is stable. It is modelled as insertion from the right:
  an element goes in front of the first element that the comparator does not put
  before it, so elements that compare equal keep their order. \<open>cmp a b\<close> is negative
  when \<open>a\<close> sorts before \<open>b\<close>.
\<close>

fun sortInsert :: "('a \<Rightarrow> 'a \<Rightarrow> int) \<Rightarrow> 'a \<Rightarrow> 'a list \<Rightarrow> 'a list" where
  "sortInsert cmp x [] = [x]"
| "sortInsert cmp x (y # ys) = (if cmp x y \<le> 0 then x # y # ys else y # sortInsert cmp x ys)"

definition jsSort :: "('a \<Rightarrow> 'a \<Rightarrow> int) \<Rightarrow> 'a list \<Rightarrow> 'a list" where
  "jsSort cmp xs = foldr (sortInsert cmp) xs []"

text \<open>\<open>d3.descending\<close> and \<open>d3.ascending\<close> on values that are neither null nor NaN.\<close>

definition descending :: "'a::linorder \<Rightarrow> 'a \<Rightarrow> int" where
  "descending a b = (if b < a then -1 else if b > a then 1 else 0)"

definition ascending :: "'a::linorder \<Rightarrow> 'a \<Rightarrow> int" where
  "ascending a b = (if a < b then -1 else if a > b then 1 else 0)"

text \<open>
  A JavaScript \<open>Set\<close> built from an array keeps the first occurrence of each value, in
  insertion order; \<open>Array.from\<close> reads it back in that order.
\<close>

definition setAdd :: "'a \<Rightarrow> 'a list \<Rightarrow> 'a list" where
  "setAdd x s = (if x \<in> set s then s else s @ [x])"

definition newSet :: "'a list \<Rightarrow> 'a list" where
  "newSet xs = foldl (\<lambda>s x. setAdd x s) [] xs"

text \<open>\<open>counts.set(key, (counts.get(key) ?? 0) + 1)\<close>, in both aggregators.\<close>

definition bump :: "'k \<Rightarrow> ('k, nat) jsmap \<Rightarrow> ('k, nat) jsmap" where
  "bump g counts = mapSet g ((case mapGet counts g of None \<Rightarrow> 0 | Some c \<Rightarrow> c) + 1) counts"

text \<open>A key that is \<open>null\<close> or the empty string fails the test \<open>if (!key)\<close>.\<close>

definition falsyKey :: "string option \<Rightarrow> bool" where
  "falsyKey k = (case k of None \<Rightarrow> True | Some s \<Rightarrow> s = [])"


section \<open>Column Resolver\<close>

text \<open>
  \<open>pickKey(row, candidates)\<close> of \<open>RatingYearHeatmap.jsx\<close> and \<open>ParallelCoords.jsx\<close>:
  \<^verbatim>\<open>
  if (!row) return null
  const keys = Object.keys(row)
  const lowerToActual = new Map(keys.map((k) => [k.toLowerCase(), k]))
  for (const c of candidates) {
    const actual = lowerToActual.get(c)
    if (actual) return actual
  }
  return null
  \<close>
  The test \<open>if (actual)\<close> is false for \<open>undefined\<close> and for the empty string.
\<close>

fun pickLoop :: "(string, string) jsmap \<Rightarrow> string list \<Rightarrow> string option" where
  "pickLoop m [] = None"
| "pickLoop m (c # cs) =
     (case mapGet m c of
        None \<Rightarrow> pickLoop m cs
      | Some actual \<Rightarrow> if actual \<noteq> [] then Some actual else pickLoop m cs)"

definition pickKey :: "'v obj option \<Rightarrow> string list \<Rightarrow> string option" where
  "pickKey row candidates =
     (case row of
        None \<Rightarrow> None
      | Some r \<Rightarrow>
          let keys = objectKeys r;
              lowerToActual = newMap (map (\<lambda>k. (toLowerCase k, k)) keys)
          in pickLoop lowerToActual candidates)"

text \<open>
  \<open>normalizeGenreKey(row)\<close> of the genre chart:
  \<^verbatim>\<open>
  if (!row) return null
  const keys = Object.keys(row)
  const key = keys.find((k) => {
    const lower = k.toLowerCase()
    return lower === 'genres' || lower === 'genre'
  })
  return key ?? null
  \<close>
\<close>

definition normalizeGenreKey :: "'v obj option \<Rightarrow> string option" where
  "normalizeGenreKey row =
     (case row of
        None \<Rightarrow> None
      | Some r \<Rightarrow>
          find (\<lambda>k. let lower = toLowerCase k in lower = ''genres'' \<or> lower = ''genre'')
               (objectKeys r))"

text \<open>The candidate lists the heatmap passes to \<open>pickKey\<close>.\<close>

definition titleCandidates :: "string list" where
  "titleCandidates = [''title'', ''book_title'', ''name'']"

definition yearCandidates :: "string list" where
  "yearCandidates =
     [''publication_year'', ''published_year'', ''original_publication_year'', ''year'',
      ''publicationyear'', ''publicationYear'']"

definition ratingCandidates :: "string list" where
  "ratingCandidates = [''average_rating'', ''avg_rating'', ''rating'', ''rating_average'']"


section \<open>Value Coercion\<close>

text \<open>
  \<open>typeof v === 'number'\<close> and \<open>Number.isFinite(v)\<close>.
\<close>

definition typeofNumber :: "jsval \<Rightarrow> bool" where
  "typeofNumber v = (case v of JNum _ \<Rightarrow> True | JNaN \<Rightarrow> True | JInf _ \<Rightarrow> True | _ \<Rightarrow> False)"

definition numberIsFinite :: "jsval \<Rightarrow> bool" where
  "numberIsFinite v = (case v of JNum _ \<Rightarrow> True | _ \<Rightarrow> False)"

text \<open>
  \<open>isFiniteNumber(v)\<close> of \<open>ParallelCoords.jsx\<close>:
  \<^verbatim>\<open>return typeof v === 'number' && Number.isFinite(v)\<close>
\<close>

definition isFiniteNumber :: "jsval \<Rightarrow> bool" where
  "isFiniteNumber v = (typeofNumber v \<and> numberIsFinite v)"

text \<open>
  Two conversions of the language are parameters of the model: how \<open>Number(s)\<close> reads a
  text \<open>s\<close> and how \<open>String(v)\<close> prints a value. Nothing proved below depends on
  them.
\<close>

record builtins =
  stringToNumber :: "string \<Rightarrow> jsval"
  toStringOf :: "jsval \<Rightarrow> string"

text \<open>
  \<open>Number(v)\<close>: \<open>undefined\<close> gives NaN, \<open>null\<close> gives 0, \<open>true\<close> and \<open>false\<close>
  give 1 and 0, a number is itself, a text is read by \<open>stringToNumber\<close>.
\<close>

definition Number :: "builtins \<Rightarrow> jsval \<Rightarrow> jsval" where
  "Number B v =
     (case v of
        JUndefined \<Rightarrow> JNaN
      | JNull \<Rightarrow> JNum 0
      | JBool b \<Rightarrow> JNum (if b then 1 else 0)
      | JStr s \<Rightarrow> stringToNumber B s
      | _ \<Rightarrow> v)"

text \<open>
  \<open>toNumber(v)\<close> of \<open>RatingYearHeatmap.jsx\<close>; \<open>None\<close> is its \<open>null\<close>.
  \<^verbatim>\<open>
  const n = typeof v === 'number' ? v : Number(v)
  return Number.isFinite(n) ? n : null
  \<close>
\<close>

definition toNumber :: "builtins \<Rightarrow> jsval \<Rightarrow> rat option" where
  "toNumber B v =
     (let n = (if typeofNumber v then v else Number B v)
      in case n of JNum q \<Rightarrow> Some q | _ \<Rightarrow> None)"

text \<open>\<open>String(v ?? '')\<close>\<close>

definition stringOrEmpty :: "builtins \<Rightarrow> jsval \<Rightarrow> string" where
  "stringOrEmpty B v =
     (case v of JUndefined \<Rightarrow> toStringOf B (JStr []) | JNull \<Rightarrow> toStringOf B (JStr [])
      | _ \<Rightarrow> toStringOf B v)"


section \<open>Buckets of the heatmap\<close>

text \<open>
  \<open>Math.round\<close> rounds to the nearest integer, a tie towards plus infinity.
  \<^verbatim>\<open>
  function decadeOf(year) { return Math.floor(year / 10) * 10 }
  function ratingBinOf(rating) {
    const b = Math.floor(rating / 0.5) * 0.5
    return Math.round(b * 10) / 10
  }
  \<close>
  The two functions are written over the rationals. The code computes in binary64, and
  the two agree as long as every intermediate result is a double. For \<open>ratingBinOf\<close>
  that is so for a rating of magnitude at most 900719925474099: dividing by 0.5 and
  multiplying by 0.5 only change the exponent, the floor \<open>k\<close> is an integer below
  \<open>2^53\<close>, the product \<open>b * 10 = 5 * k\<close> is an integer of magnitude at most
  9007199254740990, which is below \<open>2^53\<close>, and the quotient \<open>5 * k / 10 = k / 2\<close> is
  a double. Above that magnitude \<open>b * 10\<close> is rounded and the code's result is no longer
  the one defined here (\<open>inExactRange\<close> names the range). For \<open>decadeOf\<close> the quotient
  \<open>year / 10\<close> is rounded in the code; the floor is the same for every integer year
  below \<open>2^53\<close>, and nothing proved below depends on the values of the decades.
\<close>

definition inExactRange :: "rat \<Rightarrow> bool" where
  "inExactRange rating = (\<bar>rating\<bar> \<le> 900719925474099)"

definition mathRound :: "rat \<Rightarrow> int" where
  "mathRound x = \<lfloor>x + 1 / 2\<rfloor>"

definition decadeOf :: "rat \<Rightarrow> rat" where
  "decadeOf year = of_int \<lfloor>year / 10\<rfloor> * 10"

definition ratingBinOf :: "rat \<Rightarrow> rat" where
  "ratingBinOf rating =
     (let b = of_int \<lfloor>rating / (1 / 2)\<rfloor> * (1 / 2)
      in of_int (mathRound (b * 10)) / 10)"


section \<open>Dimension Selector\<close>

text \<open>
  \<open>d3.mean\<close> of an array of finite numbers, and \<open>variance(values)\<close> of
  \<open>ParallelCoords.jsx\<close>. The variance is exact here and rounded in the code, so two
  columns can be ranked the other way round there; what is proved below about the
  selection is about how many dimensions are selected and how records are built, for
  which the order of the candidates plays no role.
  \<^verbatim>\<open>
  if (!values || values.length < 2) return 0
  const mean = d3.mean(values) ?? 0
  const v = d3.mean(values, (d) => (d - mean) * (d - mean)) ?? 0
  return v
  \<close>
\<close>

definition d3mean :: "rat list \<Rightarrow> rat option" where
  "d3mean xs = (if xs = [] then None else Some (sum_list xs / of_nat (length xs)))"

definition variance :: "rat list \<Rightarrow> rat" where
  "variance values =
     (if length values < 2 then 0
      else let mean = (case d3mean values of None \<Rightarrow> 0 | Some m \<Rightarrow> m)
           in (case d3mean (map (\<lambda>d. (d - mean) * (d - mean)) values) of
                 None \<Rightarrow> 0 | Some v \<Rightarrow> v))"

definition preferredGroups :: "string list list" where
  "preferredGroups =
     [[''publication_year'', ''publicationyear'', ''published_year'',
       ''original_publication_year'', ''year'', ''publicationYear''],
      [''average_rating'', ''rating_average'', ''avg_rating'', ''rating''],
      [''page_count'', ''pagecount'', ''pages'', ''pageCount''],
      [''ratings_count'', ''rating_count'', ''num_ratings'', ''ratingsCount''],
      [''swap_count'', ''swapcount'', ''exchange_count'', ''exchangecount'', ''swaps'',
       ''exchangeCount'', ''swapCount''],
      [''popularity_score'', ''popularityscore'', ''popularity'', ''score'']]"

text \<open>The number held by a cell that \<open>isFiniteNumber\<close> accepts.\<close>

definition numOf :: "jsval \<Rightarrow> rat" where
  "numOf v = (case v of JNum q \<Rightarrow> q | _ \<Rightarrow> 0)"

text \<open>
  The numeric candidates and their statistics, from the callback \<open>prepared\<close> (the
  field \<open>values\<close> of a statistics record is \<open>vals\<close> here, and the bound 0.4 is the
  rational 2/5):
  \<^verbatim>\<open>
  const excluded = new Set(['id', 'isbn'])
  const numericCandidates = keys
    .filter((k) => !excluded.has(k.toLowerCase()))
    .filter((k) => { for (const r of rows) { if (isFiniteNumber(r?.[k])) return true } return false })
  const stats = numericCandidates
    .map((k) => {
      const values = rows.map((r) => r?.[k]).filter(isFiniteNumber)
      const validCount = values.length
      return { key: k, values, validCount, missingRatio: 1 - validCount / total, var: variance(values) }
    })
    .filter((d) => d.validCount > 0)
    .filter((d) => d.missingRatio <= 0.4)
  \<close>
\<close>

record stat =
  key :: string
  vals :: "rat list"
  validCount :: nat
  missingRatio :: rat
  var :: rat

definition numericCandidates :: "jsval obj list \<Rightarrow> string list \<Rightarrow> string list" where
  "numericCandidates rows keys =
     filter (\<lambda>k. list_ex (\<lambda>r. isFiniteNumber (cell r k)) rows)
       (filter (\<lambda>k. toLowerCase k \<notin> {''id'', ''isbn''}) keys)"

definition statOf :: "jsval obj list \<Rightarrow> string \<Rightarrow> stat" where
  "statOf rows k =
     (let xs = map numOf (filter isFiniteNumber (map (\<lambda>r. cell r k) rows));
          n = length xs
      in \<lparr>key = k, vals = xs, validCount = n,
          missingRatio = 1 - of_nat n / of_nat (length rows), var = variance xs\<rparr>)"

definition statsOf :: "jsval obj list \<Rightarrow> string list \<Rightarrow> stat list" where
  "statsOf rows keys =
     filter (\<lambda>d. missingRatio d \<le> 2 / 5)
       (filter (\<lambda>d. validCount d > 0) (map (statOf rows) (numericCandidates rows keys)))"

text \<open>
  The preferred dimensions: per group the first alias that a surviving key matches.
  \<^verbatim>\<open>
  for (const group of preferredGroups()) {
    for (const alias of group) {
      const actual = Array.from(keySet).find((k) => k.toLowerCase() === alias.toLowerCase())
      if (actual) { preferred.push(actual); break }
    }
  }
  \<close>
\<close>

fun firstAlias :: "string list \<Rightarrow> string list \<Rightarrow> string option" where
  "firstAlias keySet [] = None"
| "firstAlias keySet (alias # aliases) =
     (case find (\<lambda>k. toLowerCase k = toLowerCase alias) keySet of
        None \<Rightarrow> firstAlias keySet aliases
      | Some actual \<Rightarrow> if actual \<noteq> [] then Some actual else firstAlias keySet aliases)"

definition preferredOf :: "string list \<Rightarrow> string list" where
  "preferredOf keySet = List.map_filter (firstAlias keySet) preferredGroups"

definition byVarDescending :: "stat \<Rightarrow> stat \<Rightarrow> int" where
  "byVarDescending a b = descending (var a) (var b)"

text \<open>
  \<^verbatim>\<open>
  const byVar = [...stats].sort((a, b) => d3.descending(a.var, b.var)).map((d) => d.key)
  const combined = []
  for (const k of preferred) if (!combined.includes(k)) combined.push(k)
  for (const k of byVar) if (!combined.includes(k)) combined.push(k)
  \<close>
\<close>

definition combinedOf :: "stat list \<Rightarrow> string list" where
  "combinedOf stats =
     (let keySet = newSet (map key stats);
          preferred = preferredOf keySet;
          byVar = map key (jsSort byVarDescending stats);
          combined = foldl (\<lambda>c k. setAdd k c) [] preferred
      in foldl (\<lambda>c k. setAdd k c) combined byVar)"

text \<open>
  The selection. \<open>maxDims\<close> and \<open>minDims\<close> are properties of the component (defaults 6
  and 4), taken as integers.
  \<^verbatim>\<open>
  const maxPick = Math.max(1, Math.min(maxDims, combined.length))
  let dims = combined.slice(0, maxPick)
  if (dims.length > maxDims) dims = dims.slice(0, maxDims)
  if (dims.length < minDims) dims = combined.slice(0, Math.min(minDims, combined.length))
  \<close>
\<close>

definition selectDims :: "string list \<Rightarrow> int \<Rightarrow> int \<Rightarrow> string list" where
  "selectDims combined maxDims minDims =
     (let maxPick = max 1 (min maxDims (int (length combined)));
          dims = slice combined 0 maxPick;
          dims = (if int (length dims) > maxDims then slice dims 0 maxDims else dims);
          dims = (if int (length dims) < minDims
                  then slice combined 0 (min minDims (int (length combined))) else dims)
      in dims)"

text \<open>
  One record of the projection. It is an object that starts with the properties \<open>raw\<close>
  and \<open>title\<close>, gets one property per selected dimension and at last \<open>__missing\<close>;
  assigning to a property that exists replaces its value.
  \<^verbatim>\<open>
  const rec = { raw: r, title: titleKey ? String(r?.[titleKey] ?? '') : '' }
  let missing = 0
  for (const d of dims) {
    const v = r?.[d]
    if (!isFiniteNumber(v)) missing += 1
    rec[d] = isFiniteNumber(v) ? v : null
  }
  rec.__missing = missing
  return rec
  \<close>
\<close>

datatype recval = RRow "jsval obj" | RStr string | RNum rat | RNull

definition recStep :: "jsval obj \<Rightarrow> recval obj \<times> nat \<Rightarrow> string \<Rightarrow> recval obj \<times> nat" where
  "recStep r st d =
     (let v = cell r d;
          missing = (if \<not> isFiniteNumber v then snd st + 1 else snd st)
      in (mapSet d (if isFiniteNumber v then RNum (numOf v) else RNull) (fst st), missing))"

definition mkRec :: "builtins \<Rightarrow> string option \<Rightarrow> string list \<Rightarrow> jsval obj \<Rightarrow> recval obj" where
  "mkRec B titleKey dims r =
     (let rec = [(''raw'', RRow r),
                 (''title'', RStr (if falsyKey titleKey then []
                                   else stringOrEmpty B (cell r (the titleKey))))];
          st = foldl (recStep r) (rec, 0) dims
      in mapSet ''__missing'' (RNum (of_nat (snd st))) (fst st))"

text \<open>\<open>r.__missing <= Math.floor(dims.length / 2)\<close>\<close>

definition keepRec :: "string list \<Rightarrow> recval obj \<Rightarrow> bool" where
  "keepRec dims rec =
     (case getProp rec ''__missing'' of
        Some (RNum m) \<Rightarrow> m \<le> of_nat (length dims div 2)
      | _ \<Rightarrow> False)"

text \<open>
  The cap on the number of lines (\<open>maxLines\<close>, default 550):
  \<^verbatim>\<open>
  if (Number.isFinite(maxLines) && maxLines > 0 && data.length > maxLines) {
    data = data.slice(0, maxLines)
  }
  \<close>
  \<open>slice\<close> takes the integer part of its argument.
\<close>

definition capLines :: "jsval \<Rightarrow> 'a list \<Rightarrow> 'a list" where
  "capLines maxLines xs =
     (case maxLines of
        JNum q \<Rightarrow> if q > 0 \<and> of_nat (length xs) > q then slice xs 0 \<lfloor>q\<rfloor> else xs
      | _ \<Rightarrow> xs)"


section \<open>Binning Aggregator\<close>

record binned =
  decade :: rat
  ratingBin :: rat

record heatItem = binned +
  title :: string

record heatCell = binned +
  count :: nat

record heatPrepared =
  data :: "heatCell list"
  decades :: "rat list"
  ratingBins :: "rat list"
  maxCount :: nat

text \<open>
  One row of the heatmap. \<open>minYear\<close> and \<open>maxYear\<close> are properties of the component
  (defaults 1900 and \<open>null\<close>); a bound applies when it is a finite number.
  \<^verbatim>\<open>
  const year = toNumber(r?.[yearKey])
  const rating = toNumber(r?.[ratingKey])
  if (year === null || rating === null) return null
  if (typeof minYear === 'number' && Number.isFinite(minYear) && year < minYear) return null
  if (typeof maxYear === 'number' && Number.isFinite(maxYear) && year > maxYear) return null
  const dec = decadeOf(year)
  const bin = ratingBinOf(rating)
  const title = titleKey ? String(r?.[titleKey] ?? '') : ''
  return { decade: dec, ratingBin: bin, title }
  \<close>
\<close>

definition belowBound :: "jsval \<Rightarrow> rat \<Rightarrow> bool" where
  "belowBound minYear year = (case minYear of JNum m \<Rightarrow> year < m | _ \<Rightarrow> False)"

definition aboveBound :: "jsval \<Rightarrow> rat \<Rightarrow> bool" where
  "aboveBound maxYear year = (case maxYear of JNum m \<Rightarrow> year > m | _ \<Rightarrow> False)"

definition heatItemOf ::
  "builtins \<Rightarrow> string option \<Rightarrow> string \<Rightarrow> string \<Rightarrow> jsval \<Rightarrow> jsval \<Rightarrow> jsval obj \<Rightarrow> heatItem option" where
  "heatItemOf B titleKey yearKey ratingKey minYear maxYear r =
     (case toNumber B (cell r yearKey) of
        None \<Rightarrow> None
      | Some year \<Rightarrow>
          (case toNumber B (cell r ratingKey) of
             None \<Rightarrow> None
           | Some rating \<Rightarrow>
               if belowBound minYear year then None
               else if aboveBound maxYear year then None
               else Some \<lparr>decade = decadeOf year, ratingBin = ratingBinOf rating,
                          title = (if falsyKey titleKey then []
                                   else stringOrEmpty B (cell r (the titleKey)))\<rparr>))"

text \<open>
  The grid over the items. The key \<open>`${d.decade}|${d.ratingBin}`\<close> of the count map is
  modelled by the pair of the two numbers: the text of a number determines the number
  and holds no bar.
  \<^verbatim>\<open>
  const decades = Array.from(new Set(items.map((d) => d.decade))).sort((a, b) => d3.ascending(a, b))
  const ratingBins = Array.from(new Set(items.map((d) => d.ratingBin))).sort(...)
  const counts = new Map()
  for (const d of items) { counts.set(key, (counts.get(key) ?? 0) + 1) }
  const data = []
  let maxCount = 0
  for (const dec of decades) {
    for (const bin of ratingBins) {
      const count = counts.get(key) ?? 0
      if (count > maxCount) maxCount = count
      data.push({ decade: dec, ratingBin: bin, count })
    }
  }
  return { data, decades, ratingBins, maxCount }
  \<close>
\<close>

definition pushCell ::
  "(rat \<times> rat, nat) jsmap \<Rightarrow> rat \<Rightarrow> heatCell list \<times> nat \<Rightarrow> rat \<Rightarrow> heatCell list \<times> nat" where
  "pushCell counts dec st bin =
     (let n = (case mapGet counts (dec, bin) of None \<Rightarrow> 0 | Some c \<Rightarrow> c)
      in (fst st @ [\<lparr>decade = dec, ratingBin = bin, count = n\<rparr>],
          if n > snd st then n else snd st))"

definition gridOf :: "heatItem list \<Rightarrow> heatPrepared" where
  "gridOf items =
     (let decs = jsSort ascending (newSet (map decade items));
          bins = jsSort ascending (newSet (map ratingBin items));
          counts = foldl (\<lambda>m d. bump (decade d, ratingBin d) m) [] items;
          st = foldl (\<lambda>st dec. foldl (pushCell counts dec) st bins) ([], 0) decs
      in \<lparr>data = fst st, decades = decs, ratingBins = bins, maxCount = snd st\<rparr>)"

definition emptyGrid :: heatPrepared where
  "emptyGrid = \<lparr>data = [], decades = [], ratingBins = [], maxCount = 0\<rparr>"

text \<open>
  The \<open>useMemo\<close> callback \<open>prepared\<close> of \<open>RatingYearHeatmap.jsx\<close>. \<open>heatItems\<close> is
  its array \<open>items\<close>, the filtered rows (empty where the callback returns early).
\<close>

definition heatItems :: "builtins \<Rightarrow> jsval obj list \<Rightarrow> jsval \<Rightarrow> jsval \<Rightarrow> heatItem list" where
  "heatItems B rows minYear maxYear =
     (case rows of
        [] \<Rightarrow> []
      | row0 # _ \<Rightarrow>
          let titleKey = pickKey (Some row0) titleCandidates;
              yearKey = pickKey (Some row0) yearCandidates;
              ratingKey = pickKey (Some row0) ratingCandidates
          in if falsyKey yearKey \<or> falsyKey ratingKey then []
             else List.map_filter
                    (heatItemOf B titleKey (the yearKey) (the ratingKey) minYear maxYear) rows)"

definition heatmapPrepared :: "builtins \<Rightarrow> jsval obj list \<Rightarrow> jsval \<Rightarrow> jsval \<Rightarrow> heatPrepared" where
  "heatmapPrepared B rows minYear maxYear =
     (case rows of
        [] \<Rightarrow> emptyGrid
      | row0 # _ \<Rightarrow>
          let titleKey = pickKey (Some row0) titleCandidates;
              yearKey = pickKey (Some row0) yearCandidates;
              ratingKey = pickKey (Some row0) ratingCandidates
          in if falsyKey yearKey \<or> falsyKey ratingKey then emptyGrid
             else gridOf (List.map_filter
                    (heatItemOf B titleKey (the yearKey) (the ratingKey) minYear maxYear) rows))"


section \<open>Categorical Aggregator\<close>

text \<open>
  \<open>String.prototype.split(',')\<close> and \<open>String.prototype.trim\<close>. White space is the
  ASCII white space: tab, line feed, vertical tab, form feed, carriage return, space.
\<close>

fun splitOn :: "char \<Rightarrow> string \<Rightarrow> string list" where
  "splitOn c [] = [[]]"
| "splitOn c (x # xs) =
     (if x = c then [] # splitOn c xs
      else (case splitOn c xs of [] \<Rightarrow> [[x]] | p # ps \<Rightarrow> (x # p) # ps))"

definition isWhiteSpace :: "char \<Rightarrow> bool" where
  "isWhiteSpace c = ((9 \<le> (of_char c :: nat) \<and> (of_char c :: nat) \<le> 13) \<or> (of_char c :: nat) = 32)"

definition trim :: "string \<Rightarrow> string" where
  "trim s = rev (dropWhile isWhiteSpace (rev (dropWhile isWhiteSpace s)))"

text \<open>
  The genre chart loads its rows with \<open>d3.csv\<close> and no row conversion, so every cell is
  a text. The categories of one row:
  \<^verbatim>\<open>
  const raw = row?.[genreKey]
  if (!raw) continue
  const parts = String(raw).split(',').map((d) => d.trim()).filter(Boolean)
  \<close>
  An absent cell and the empty text are skipped.
\<close>

definition genreParts :: "string \<Rightarrow> string obj \<Rightarrow> string list" where
  "genreParts genreKey row =
     (case getProp row genreKey of
        None \<Rightarrow> []
      | Some raw \<Rightarrow>
          if raw = [] then []
          else filter (\<lambda>d. d \<noteq> []) (map trim (splitOn CHR '','' raw)))"

definition countGenres :: "string \<Rightarrow> string obj list \<Rightarrow> (string, nat) jsmap" where
  "countGenres genreKey rows =
     foldl (\<lambda>counts row. foldl (\<lambda>m g. bump g m) counts (genreParts genreKey row)) [] rows"

record genreCount =
  genre :: string
  count :: nat

definition byCountDescending :: "genreCount \<Rightarrow> genreCount \<Rightarrow> int" where
  "byCountDescending a b = descending (count a) (count b)"

text \<open>
  \<open>aggregateGenres(rows, topN)\<close>:
  \<^verbatim>\<open>
  if (!rows || rows.length === 0) return []
  const genreKey = normalizeGenreKey(rows[0])
  if (!genreKey) return []
  const counts = new Map()
  for (const row of rows) { ... }
  const out = Array.from(counts, ([genre, count]) => ({ genre, count }))
  out.sort((a, b) => d3.descending(a.count, b.count))
  return out.slice(0, topN)
  \<close>
  \<open>categoryRecords\<close> is the array \<open>out\<close> before it is sorted (empty where the function
  returns early).
\<close>

definition categoryRecords :: "string obj list \<Rightarrow> genreCount list" where
  "categoryRecords rows =
     (case rows of
        [] \<Rightarrow> []
      | row0 # _ \<Rightarrow>
          (case normalizeGenreKey (Some row0) of
             None \<Rightarrow> []
           | Some genreKey \<Rightarrow>
               if genreKey = [] then []
               else map (\<lambda>(g, c). \<lparr>genre = g, count = c\<rparr>) (countGenres genreKey rows)))"

definition aggregateGenres :: "string obj list \<Rightarrow> int \<Rightarrow> genreCount list" where
  "aggregateGenres rows topN =
     (case rows of
        [] \<Rightarrow> []
      | row0 # _ \<Rightarrow>
          (case normalizeGenreKey (Some row0) of
             None \<Rightarrow> []
           | Some genreKey \<Rightarrow>
               if genreKey = [] then []
               else
                 let counts = countGenres genreKey rows;
                     out = map (\<lambda>(g, c). \<lparr>genre = g, count = c\<rparr>) counts;
                     sorted = jsSort byCountDescending out
                 in slice sorted 0 topN))"

text \<open>
  What the language asks of any implementation of \<open>sort\<close> with this comparator: the
  result is a rearrangement of the array, in descending order of count, and records of
  equal count keep their relative order.
\<close>

definition stableDescending :: "genreCount list \<Rightarrow> genreCount list \<Rightarrow> bool" where
  "stableDescending xs ys =
     (mset ys = mset xs \<and>
      sorted_wrt (\<lambda>a b. count a \<ge> count b) ys \<and>
      list_all (\<lambda>k. filter (\<lambda>r. count r = k) ys = filter (\<lambda>r. count r = k) xs) (map count xs))"


text \<open>
  Two notions for stating the ranking: the categories the loop of \<open>aggregateGenres\<close>
  meets, in the order it meets them, and the distinct elements of a list in the order
  of their first occurrence.
\<close>

definition allGenres :: "string obj list \<Rightarrow> string list" where
  "allGenres rows =
     (case rows of
        [] \<Rightarrow> []
      | row0 # _ \<Rightarrow>
          (case normalizeGenreKey (Some row0) of
             None \<Rightarrow> []
           | Some genreKey \<Rightarrow> concat (map (genreParts genreKey) rows)))"

fun firstSeen :: "'a list \<Rightarrow> 'a list" where
  "firstSeen [] = []"
| "firstSeen (x # xs) = x # filter (\<lambda>y. y \<noteq> x) (firstSeen xs)"


section \<open>Prepared projection\<close>

record projection =
  dims :: "string list"
  data :: "recval obj list"
  titleKey :: "string option"

text \<open>
  The \<open>useMemo\<close> callback \<open>prepared\<close> of \<open>ParallelCoords.jsx\<close>. \<open>survivors\<close> is its
  array \<open>stats\<close>, the numeric candidates that pass the two filters (empty where the
  callback returns early).
\<close>

definition survivors :: "jsval obj list \<Rightarrow> stat list" where
  "survivors rows = (case rows of [] \<Rightarrow> [] | row0 # _ \<Rightarrow> statsOf rows (objectKeys row0))"

definition parallelPrepared ::
  "builtins \<Rightarrow> int \<Rightarrow> int \<Rightarrow> jsval \<Rightarrow> jsval obj list \<Rightarrow> projection" where
  "parallelPrepared B maxDims minDims maxLines rows =
     (case rows of
        [] \<Rightarrow> \<lparr>dims = [], data = [], titleKey = None\<rparr>
      | row0 # _ \<Rightarrow>
          let tk = pickKey (Some row0) titleCandidates;
              keys = objectKeys row0;
              stats = statsOf rows keys;
              combined = combinedOf stats;
              ds = selectDims combined maxDims minDims;
              dimSet = newSet ds;
              recs = filter (keepRec ds) (map (mkRec B tk ds) rows)
          in \<lparr>dims = dimSet, data = capLines maxLines recs, titleKey = tk\<rparr>)"


text \<open>The number of selected dimensions for which a row has no finite number.\<close>

definition missingCount :: "string list \<Rightarrow> jsval obj \<Rightarrow> nat" where
  "missingCount ds r = length (filter (\<lambda>d. \<not> isFiniteNumber (cell r d)) ds)"


section \<open>Facts about the built-ins\<close>

lemma lowerChar_not_upper: "\<not> isUpperChar (lowerChar c)"
proof (cases "isUpperChar c")
  case True
  then have "(of_char c :: nat) + 32 < 256"
    by (simp add: isUpperChar_def)
  then have "(of_char (char_of ((of_char c :: nat) + 32)) :: nat) = of_char c + 32"
    by (simp add: of_char_of)
  with True show ?thesis
    by (simp add: lowerChar_def isUpperChar_def)
next
  case False
  then show ?thesis by (simp add: lowerChar_def)
qed

lemma toLowerCase_no_upper: "ch \<in> set (toLowerCase s) \<Longrightarrow> \<not> isUpperChar ch"
  by (auto simp: toLowerCase_def lowerChar_not_upper)

lemma mapSet_get: "map_of (mapSet k v m) k' = (if k' = k then Some v else map_of m k')"
  by (induction m) auto

lemma mapSet_keys:
  "map fst (mapSet k v m) = (if k \<in> fst ` set m then map fst m else map fst m @ [k])"
  by (induction m) force+

lemma newMap_get_aux:
  "map_of (foldl (\<lambda>m (k, v). mapSet k v m) m0 es) k =
     (case map_of (rev es) k of None \<Rightarrow> map_of m0 k | Some v \<Rightarrow> Some v)"
proof (induction es arbitrary: m0)
  case Nil
  then show ?case by simp
next
  case (Cons e es)
  obtain a b where e: "e = (a, b)" by (cases e)
  show ?case
    by (simp add: Cons.IH e mapSet_get map_add_def split: option.splits)
qed

lemma newMap_get: "mapGet (newMap es) k = map_of (rev es) k"
  by (simp add: mapGet_def newMap_def newMap_get_aux split: option.splits)


lemma map_of_keyed: "map_of (map (\<lambda>k. (f k, k)) ks) c = find (\<lambda>k. f k = c) ks"
  by (induction ks) auto

lemma toLowerCase_Nil_iff: "toLowerCase k = [] \<longleftrightarrow> k = []"
  by (simp add: toLowerCase_def)

lemma find_None_image: "find (\<lambda>k. f k = c) ks = None \<longleftrightarrow> c \<notin> f ` set ks"
  by (auto simp: find_None_iff)

lemma find_Some_image: "find (\<lambda>k. f k = c) ks = Some k \<Longrightarrow> k \<in> set ks \<and> f k = c"
  by (auto simp: find_Some_iff)


section \<open>What the Column Resolver computes\<close>

text \<open>
  The map built by \<open>pickKey\<close> sends a lowercased name to the last field of the row that
  has it: a later entry of \<open>new Map(entries)\<close> replaces an earlier one.
\<close>

lemma lowerToActual_get:
  "mapGet (newMap (map (\<lambda>k. (toLowerCase k, k)) keys)) c =
     find (\<lambda>k. toLowerCase k = c) (rev keys)"
  by (simp add: newMap_get rev_map map_of_keyed)

lemma pickLoop_find:
  "pickLoop (newMap (map (\<lambda>k. (toLowerCase k, k)) keys)) cs =
     (case find (\<lambda>c. c \<noteq> [] \<and> c \<in> toLowerCase ` set keys) cs of
        None \<Rightarrow> None
      | Some c \<Rightarrow> find (\<lambda>k. toLowerCase k = c) (rev keys))"
proof (induction cs)
  case Nil
  then show ?case by simp
next
  case (Cons c cs)
  show ?case
  proof (cases "find (\<lambda>k. toLowerCase k = c) (rev keys)")
    case None
    then have "c \<notin> toLowerCase ` set keys"
      using find_None_image [of toLowerCase c "rev keys"] by simp
    with None Cons.IH show ?thesis
      by (simp add: lowerToActual_get)
  next
    case (Some a)
    then have a: "a \<in> set keys" "toLowerCase a = c"
      using find_Some_image [of toLowerCase c "rev keys" a] by simp_all
    then have "c \<in> toLowerCase ` set keys" by blast
    moreover have "a \<noteq> [] \<longleftrightarrow> c \<noteq> []"
      using a(2) toLowerCase_Nil_iff [of a] by auto
    ultimately show ?thesis
      using Some Cons.IH by (simp add: lowerToActual_get)
  qed
qed

lemma pickKey_find:
  "pickKey (Some r) cs =
     (case find (\<lambda>c. c \<noteq> [] \<and> c \<in> toLowerCase ` set (objectKeys r)) cs of
        None \<Rightarrow> None
      | Some c \<Rightarrow> find (\<lambda>k. toLowerCase k = c) (rev (objectKeys r)))"
  by (simp add: pickKey_def pickLoop_find Let_def)

lemma upper_never_matches:
  assumes "\<exists>ch \<in> set c. isUpperChar ch"
  shows "c \<notin> toLowerCase ` set keys"
  using assms toLowerCase_no_upper by blast

lemma find_skip: "\<not> P c \<Longrightarrow> find P (xs @ c # ys) = find P (xs @ ys)"
  by (induction xs) auto

lemma pickKey_skip:
  assumes "c \<notin> toLowerCase ` set (objectKeys r)"
  shows "pickKey (Some r) (xs @ c # ys) = pickKey (Some r) (xs @ ys)"
  using assms by (simp add: pickKey_find find_skip)

text \<open>
  C10. \<open>pickKey\<close> looks a candidate up as it is written in a map whose keys are lowercased
  field names. A candidate with an uppercase letter is never found: dropping it from the
  candidate list changes no result. The heatmap's year candidates end with
  \<open>publicationYear\<close>; for every row the year key is the one resolved from the five
  candidates before it.
\<close>

theorem uppercase_candidate_unreachable:
  "((\<exists>ch \<in> set c. isUpperChar ch) \<longrightarrow>
      pickKey row (xs @ c # ys) = pickKey row (xs @ ys) \<and>
      pickKey row [c] = None) \<and>
   pickKey row yearCandidates = pickKey row (butlast yearCandidates)"
proof (cases row)
  case None
  then show ?thesis by (simp add: pickKey_def)
next
  case (Some r)
  have gen: "pickKey (Some r) (xs @ c # ys) = pickKey (Some r) (xs @ ys) \<and>
             pickKey (Some r) [c] = None"
    if "\<exists>ch \<in> set c. isUpperChar ch"
    using pickKey_skip [OF upper_never_matches [OF that], of r xs ys]
          pickKey_skip [OF upper_never_matches [OF that], of r "[]" "[]"]
    by (simp add: pickKey_find)
  have "\<exists>ch \<in> set ''publicationYear''. isUpperChar ch"
    by (simp add: isUpperChar_def)
  from pickKey_skip [OF upper_never_matches [OF this], of r "butlast yearCandidates" "[]"]
  have "pickKey (Some r) yearCandidates = pickKey (Some r) (butlast yearCandidates)"
    by (simp add: yearCandidates_def)
  with gen Some show ?thesis by blast
qed

theorem uppercase_candidate_unreachable_witness:
  "(\<exists>ch \<in> set ''publicationYear''. isUpperChar ch) \<and>
   pickKey (Some [(''publicationYear'', JNum 1995)]) [''publicationYear''] = None \<and>
   pickKey (Some [(''publicationYear'', JNum 1995)]) yearCandidates =
     Some ''publicationYear''"
proof -
  have u: "\<exists>ch \<in> set ''publicationYear''. isUpperChar ch"
    by (simp add: isUpperChar_def)
  have "pickKey (Some [(''publicationYear'', JNum 1995)]) (butlast yearCandidates) =
          Some ''publicationYear''"
    by code_simp
  with u uppercase_candidate_unreachable
         [of "''publicationYear''" "Some [(''publicationYear'', JNum 1995)]" "[]" "[]"]
  show ?thesis by metis
qed


lemma pickKey_None_iff:
  assumes "[] \<notin> set cs"
  shows "pickKey (Some r) cs = None \<longleftrightarrow>
           (\<forall>c \<in> set cs. c \<notin> toLowerCase ` set (objectKeys r))"
proof (cases "find (\<lambda>c. c \<noteq> [] \<and> c \<in> toLowerCase ` set (objectKeys r)) cs")
  case None
  then have "pickKey (Some r) cs = None"
    by (simp add: pickKey_find)
  moreover from None assms have "\<forall>c \<in> set cs. c \<notin> toLowerCase ` set (objectKeys r)"
    unfolding find_None_iff by metis
  ultimately show ?thesis by simp
next
  case (Some c)
  then have c: "c \<in> set cs" "c \<in> toLowerCase ` set (objectKeys r)"
    unfolding find_Some_iff by (metis nth_mem)+
  then have "find (\<lambda>k. toLowerCase k = c) (rev (objectKeys r)) \<noteq> None"
    using find_None_image [of toLowerCase c "rev (objectKeys r)"] by simp
  with Some c show ?thesis
    by (auto simp: pickKey_find)
qed

lemma pickKey_Some_index:
  assumes "[] \<notin> set cs" and "pickKey (Some r) cs = Some k"
  shows "k \<in> set (objectKeys r) \<and>
         (\<exists>i < length cs. cs ! i = toLowerCase k \<and>
            (\<forall>j < i. cs ! j \<notin> toLowerCase ` set (objectKeys r)))"
proof -
  from assms(2) obtain c where
    c: "find (\<lambda>c. c \<noteq> [] \<and> c \<in> toLowerCase ` set (objectKeys r)) cs = Some c"
    and k: "find (\<lambda>k. toLowerCase k = c) (rev (objectKeys r)) = Some k"
    by (auto simp: pickKey_find split: option.splits)
  from k have kk: "k \<in> set (objectKeys r)" "toLowerCase k = c"
    using find_Some_image [of toLowerCase c "rev (objectKeys r)" k] by simp_all
  from c obtain i where i: "i < length cs" "cs ! i = c"
    and least: "\<forall>j < i. \<not> (cs ! j \<noteq> [] \<and> cs ! j \<in> toLowerCase ` set (objectKeys r))"
    by (auto simp: find_Some_iff)
  have "cs ! j \<notin> toLowerCase ` set (objectKeys r)" if "j < i" for j
  proof -
    from that i(1) have "cs ! j \<in> set cs" by simp
    with assms(1) have "cs ! j \<noteq> []" by metis
    with least that show ?thesis by blast
  qed
  with kk i show ?thesis by blast
qed

text \<open>
  C5 (as the code has it). With no empty alias among the candidates, \<open>pickKey\<close> goes
  through the candidates in list order: it returns nothing exactly when no candidate is
  the lowercased form of a field name (so also for a missing or an empty row), and a
  field it returns lowercases to the first candidate, in list order, that any field
  matches. The genre chart's resolver \<open>normalizeGenreKey\<close> takes no candidate list: it
  returns the first field, in row-key order, whose lowercased name is \<open>genres\<close> or
  \<open>genre\<close>.
\<close>

theorem column_resolver_order:
  assumes "[] \<notin> set candidates"
  shows "pickKey None candidates = None \<and>
         pickKey (Some []) candidates = None \<and>
         (pickKey (Some r) candidates = None \<longleftrightarrow>
            (\<forall>c \<in> set candidates. c \<notin> toLowerCase ` set (objectKeys r))) \<and>
         (\<forall>k. pickKey (Some r) candidates = Some k \<longrightarrow>
            k \<in> set (objectKeys r) \<and>
            (\<exists>i < length candidates. candidates ! i = toLowerCase k \<and>
               (\<forall>j < i. candidates ! j \<notin> toLowerCase ` set (objectKeys r)))) \<and>
         normalizeGenreKey None = None \<and>
         (normalizeGenreKey (Some r) = None \<longleftrightarrow>
            (\<forall>k \<in> set (objectKeys r). toLowerCase k \<notin> {''genres'', ''genre''})) \<and>
         (\<forall>k. normalizeGenreKey (Some r) = Some k \<longrightarrow>
            (\<exists>i < length (objectKeys r). objectKeys r ! i = k \<and>
               toLowerCase k \<in> {''genres'', ''genre''} \<and>
               (\<forall>j < i. toLowerCase (objectKeys r ! j) \<notin> {''genres'', ''genre''})))"
proof -
  have p0: "pickKey None candidates = None"
    by (simp add: pickKey_def)
  have p1: "pickKey (Some []) candidates = None"
    using pickKey_None_iff [OF assms, of "[]"] by (simp add: objectKeys_def)
  have g0: "normalizeGenreKey None = None"
    by (simp add: normalizeGenreKey_def)
  have g1: "normalizeGenreKey (Some r) = None \<longleftrightarrow>
              (\<forall>k \<in> set (objectKeys r). toLowerCase k \<notin> {''genres'', ''genre''})"
    by (auto simp: normalizeGenreKey_def find_None_iff Let_def)
  have g2: "\<exists>i < length (objectKeys r). objectKeys r ! i = k \<and>
               toLowerCase k \<in> {''genres'', ''genre''} \<and>
               (\<forall>j < i. toLowerCase (objectKeys r ! j) \<notin> {''genres'', ''genre''})"
    if "normalizeGenreKey (Some r) = Some k" for k
    using that by (fastforce simp: normalizeGenreKey_def find_Some_iff Let_def)
  from p0 p1 pickKey_None_iff [OF assms, of r] pickKey_Some_index [OF assms, of r] g0 g1 g2
  show ?thesis by blast
qed

theorem column_resolver_order_witness:
  "[] \<notin> set [''avg_rating'', ''rating''] \<and>
   pickKey (Some [(''Title'', JStr ''Dune''), (''Rating'', JNum 4)]) [''avg_rating'', ''rating'']
     = Some ''Rating'' \<and>
   ''Rating'' \<in> set (objectKeys [(''Title'', JStr ''Dune''), (''Rating'', JNum 4)]) \<and>
   pickKey (Some ([] :: jsval obj)) [''avg_rating'', ''rating''] = None"
proof -
  have h: "[] \<notin> set [''avg_rating'', ''rating'']" by simp
  have e: "pickKey (Some [(''Title'', JStr ''Dune''), (''Rating'', JNum 4)])
             [''avg_rating'', ''rating''] = Some ''Rating''"
    by code_simp
  from column_resolver_order [OF h, of "[(''Title'', JStr ''Dune''), (''Rating'', JNum 4)]"] e h
  show ?thesis by blast
qed

text \<open>
  C5 as stated fails for the genre chart's resolver. A row with a \<open>genre\<close> and a
  \<open>genres\<close> field resolves to whichever comes first in the row, whatever order the two
  aliases are given in; \<open>pickKey\<close> on the same rows follows the candidate order.
\<close>

theorem genre_resolver_row_order:
  "normalizeGenreKey (Some [(''genre'', ''Drama''), (''genres'', ''Fantasy'')]) = Some ''genre'' \<and>
   pickKey (Some [(''genre'', ''Drama''), (''genres'', ''Fantasy'')]) [''genres'', ''genre'']
     = Some ''genres'' \<and>
   normalizeGenreKey (Some [(''genres'', ''Fantasy''), (''genre'', ''Drama'')]) = Some ''genres'' \<and>
   pickKey (Some [(''genres'', ''Fantasy''), (''genre'', ''Drama'')]) [''genre'', ''genres'']
     = Some ''genre''"
  by code_simp

section \<open>Value Coercion: what comes back\<close>

lemma toNumber_finite: "toNumber B (JNum q) = Some q"
  by (simp add: toNumber_def typeofNumber_def)

lemma toNumber_nonfinite: "toNumber B JNaN = None \<and> toNumber B (JInf s) = None"
  by (simp add: toNumber_def typeofNumber_def)

text \<open>
  C4. \<open>toNumber\<close> answers a cell that holds \<open>null\<close> (what \<open>d3.autoType\<close> makes of an
  empty field) with the number 0, and likewise \<open>false\<close>: \<open>Number(null)\<close> is 0, which
  is finite. \<open>isFiniteNumber\<close> of the parallel-coordinates chart rejects the same
  cells. NaN and the infinities are rejected by both.
\<close>

theorem toNumber_null_is_zero:
  "toNumber B JNull = Some 0 \<and> toNumber B (JBool False) = Some 0 \<and>
   \<not> isFiniteNumber JNull \<and> \<not> isFiniteNumber (JBool False) \<and>
   toNumber B JNaN = None \<and> toNumber B (JInf s) = None \<and> toNumber B JUndefined = None \<and>
   \<not> isFiniteNumber JNaN \<and> \<not> isFiniteNumber (JInf s)"
  by (simp add: toNumber_def Number_def typeofNumber_def isFiniteNumber_def numberIsFinite_def)


section \<open>Rating buckets\<close>

lemma mathRound_half_int: "mathRound (of_int k * (1 / 2) * 10) = 5 * k"
  unfolding mathRound_def by (rule floor_unique) simp_all

lemma ratingBinOf_eq: "ratingBinOf r = of_int \<lfloor>2 * r\<rfloor> / 2"
proof -
  have e: "r / (1 / 2) = 2 * r" by simp
  show ?thesis
    unfolding ratingBinOf_def Let_def e mathRound_half_int by simp
qed

text \<open>
  C6 (as the code has it). For a rating of magnitude at most 900719925474099, where
  the computation in doubles is exact, the bucket of the rating is the multiple of 0.5
  at or below it: it is a half-integer, not above the rating and less than 0.5 below
  it, and so is of magnitude at most 900719925474099 itself. The rounding to one
  decimal place leaves that multiple as it is.
\<close>

theorem ratingBinOf_floor_half:
  assumes "inExactRange r"
  shows "ratingBinOf r = of_int \<lfloor>2 * r\<rfloor> / 2 \<and> ratingBinOf r \<le> r \<and>
         r < ratingBinOf r + 1 / 2 \<and> inExactRange (ratingBinOf r)"
proof -
  have "of_int \<lfloor>2 * r\<rfloor> \<le> 2 * r" by (rule of_int_floor_le)
  moreover have "2 * r < of_int \<lfloor>2 * r\<rfloor> + 1" by linarith
  ultimately have b: "of_int \<lfloor>2 * r\<rfloor> / 2 \<le> r \<and> r < of_int \<lfloor>2 * r\<rfloor> / 2 + 1 / 2"
    by linarith
  have "(of_int (- 1801439850948198) :: rat) \<le> 2 * r"
    using assms by (simp add: inExactRange_def abs_le_iff)
  then have "(- 1801439850948198 :: int) \<le> \<lfloor>2 * r\<rfloor>"
    by (simp only: le_floor_iff)
  then have "(of_int (- 1801439850948198) :: rat) \<le> of_int \<lfloor>2 * r\<rfloor>"
    by (simp only: of_int_le_iff)
  then have "- 900719925474099 \<le> (of_int \<lfloor>2 * r\<rfloor> / 2 :: rat)"
    by simp
  moreover have "r \<le> 900719925474099"
    using assms by (simp add: inExactRange_def abs_le_iff)
  ultimately have "inExactRange (of_int \<lfloor>2 * r\<rfloor> / 2)"
    using b by (simp add: inExactRange_def abs_le_iff)
  with b show ?thesis
    by (simp only: ratingBinOf_eq)
qed

theorem ratingBinOf_floor_half_witness:
  "inExactRange (19 / 4) \<and> ratingBinOf (19 / 4) = 9 / 2 \<and>
   inExactRange (900719925474099) \<and> ratingBinOf 900719925474099 = 900719925474099"
proof -
  have h1: "inExactRange (19 / 4)" and h2: "inExactRange 900719925474099"
    by (simp_all add: inExactRange_def)
  have "of_int \<lfloor>2 * (19 / 4 :: rat)\<rfloor> / 2 = (9 / 2 :: rat)"
    by (simp add: floor_eq_iff)
  with ratingBinOf_floor_half [OF h1] ratingBinOf_floor_half [OF h2] h1 h2
  show ?thesis by simp
qed

text \<open>
  C6 as stated fails: the rating 0.49999999 is floored into the bucket 0.0 and the
  rating 0.5 into the bucket 0.5, so the two bucket keys differ. Both ratings are in
  the exact range.
\<close>

theorem ratingBinOf_drift_counterexample:
  "ratingBinOf (49999999 / 100000000) = 0 \<and> ratingBinOf (1 / 2) = 1 / 2 \<and>
   ratingBinOf (49999999 / 100000000) \<noteq> ratingBinOf (1 / 2) \<and>
   inExactRange (49999999 / 100000000) \<and> inExactRange (1 / 2)"
  by (simp add: ratingBinOf_eq floor_eq_iff inExactRange_def)

section \<open>Categorical Aggregator: ranking\<close>

lemma slice_take: "0 \<le> n \<Longrightarrow> slice xs 0 n = take (nat n) xs"
  by (simp add: slice_def relIndex_def min_def)

lemma sortInsert_insort:
  "sortInsert byCountDescending x ys = insort_key (\<lambda>r. - int (count r)) x ys"
  by (induction ys) (auto simp: byCountDescending_def descending_def)

lemma jsSort_sort_key:
  "jsSort byCountDescending xs = sort_key (\<lambda>r. - int (count r)) xs"
  by (induction xs) (simp_all add: jsSort_def sortInsert_insort)

lemma sorted_neg_count:
  "sorted (map (\<lambda>r. - int (count r)) ys) \<longleftrightarrow> sorted_wrt (\<lambda>a b. count a \<ge> count b) ys"
  by (simp add: sorted_map)

lemma jsSort_stableDescending: "stableDescending xs (jsSort byCountDescending xs)"
proof -
  have "filter (\<lambda>r. count r = k) (sort_key (\<lambda>r. - int (count r)) xs) =
          filter (\<lambda>r. count r = k) xs" for k
    using sort_key_stable [of "\<lambda>r. - int (count r)" "- int k" xs] by simp
  moreover have "sorted_wrt (\<lambda>a b. count a \<ge> count b) (sort_key (\<lambda>r. - int (count r)) xs)"
    using sorted_sort_key [of "\<lambda>r. - int (count r)" xs] by (simp add: sorted_neg_count)
  ultimately show ?thesis
    by (simp add: stableDescending_def jsSort_sort_key list_all_iff)
qed

lemma stableDescending_unique:
  assumes "stableDescending xs ys"
  shows "ys = jsSort byCountDescending xs"
proof -
  from assms have m: "mset ys = mset xs"
    and s: "sorted (map (\<lambda>r. - int (count r)) ys)"
    and st: "\<And>k. k \<in> count ` set xs \<Longrightarrow>
               filter (\<lambda>r. count r = k) ys = filter (\<lambda>r. count r = k) xs"
    by (auto simp: stableDescending_def sorted_neg_count list_all_iff)
  have "filter (\<lambda>x. - int (count k) = - int (count x)) ys =
          filter (\<lambda>x. - int (count k) = - int (count x)) xs" if "k \<in> set ys" for k
  proof -
    have eq: "(\<lambda>x. - int (count k) = - int (count x)) = (\<lambda>r. count r = count k)"
      by auto
    from that m have "k \<in> set xs" by (metis set_mset_mset)
    then have "filter (\<lambda>r. count r = count k) ys = filter (\<lambda>r. count r = count k) xs"
      using st by blast
    then show ?thesis unfolding eq .
  qed
  from properties_for_sort_key [OF m this s] show ?thesis
    by (simp add: jsSort_sort_key)
qed

lemma slice_Nil: "slice [] s e = []"
  by (simp add: slice_def)

lemma jsSort_Nil: "jsSort cmp [] = []"
  by (simp add: jsSort_def)

lemma aggregateGenres_ranked:
  "aggregateGenres rows topN = slice (jsSort byCountDescending (categoryRecords rows)) 0 topN"
proof (cases rows)
  case Nil
  then show ?thesis
    by (simp add: aggregateGenres_def categoryRecords_def jsSort_Nil slice_Nil)
next
  case (Cons row0 rest)
  show ?thesis
  proof (cases "normalizeGenreKey (Some row0)")
    case None
    with Cons show ?thesis
      by (simp add: aggregateGenres_def categoryRecords_def jsSort_Nil slice_Nil)
  next
    case (Some k)
    with Cons show ?thesis
      by (simp add: aggregateGenres_def categoryRecords_def jsSort_Nil slice_Nil Let_def)
  qed
qed

lemma bump_keys:
  "map fst (bump g m) = (if g \<in> fst ` set m then map fst m else map fst m @ [g])"
  by (simp add: bump_def mapSet_keys)

lemma bump_get:
  "map_of (bump g m) g' =
     (if g' = g then Some ((case map_of m g of None \<Rightarrow> 0 | Some c \<Rightarrow> c) + 1) else map_of m g')"
  by (simp add: bump_def mapSet_get mapGet_def)

lemma distinct_firstSeen: "distinct (firstSeen xs)"
  by (induction xs) auto

lemma set_firstSeen: "set (firstSeen xs) = set xs"
  by (induction xs) auto

lemma mapSet_keyset: "fst ` set (mapSet k v m) = insert k (fst ` set m)"
proof -
  have "set (map fst (mapSet k v m)) = insert k (set (map fst m))"
    by (simp add: mapSet_keys insert_absorb)
  then show ?thesis by simp
qed

lemma bump_keyset: "fst ` set (bump g m) = insert g (fst ` set m)"
  by (simp add: bump_def mapSet_keyset)

lemma filter_drop_member:
  "g \<in> K \<Longrightarrow> filter (\<lambda>x. x \<noteq> g \<and> x \<notin> K) xs = filter (\<lambda>x. x \<notin> K) xs"
  by (induction xs) auto

lemma filter_insert_split:
  "filter (\<lambda>x. x \<notin> insert g K) xs = filter (\<lambda>x. x \<notin> K) (filter (\<lambda>y. y \<noteq> g) xs)"
  by (induction xs) auto

lemma fold_bump_keys:
  "map fst (foldl (\<lambda>m g. bump g m) m gs) =
     map fst m @ filter (\<lambda>g. g \<notin> fst ` set m) (firstSeen gs)"
proof (induction gs arbitrary: m)
  case Nil
  then show ?case by simp
next
  case (Cons g gs)
  show ?case
  proof (cases "g \<in> fst ` set m")
    case True
    then have "fst ` set (bump g m) = fst ` set m"
      by (simp add: bump_keyset insert_absorb)
    with True Cons.IH [of "bump g m"] show ?thesis
      by (simp add: bump_keys filter_drop_member)
  next
    case False
    with Cons.IH [of "bump g m"] show ?thesis
      by (simp add: bump_keys bump_keyset filter_insert_split)
  qed
qed

lemma map_of_None_keys: "map_of m g = None \<longleftrightarrow> g \<notin> fst ` set m"
  by (simp add: map_of_eq_None_iff)

lemma fold_bump_get:
  "map_of (foldl (\<lambda>m g. bump g m) m gs) g =
     (if g \<in> fst ` set m \<or> g \<in> set gs
      then Some ((case map_of m g of None \<Rightarrow> 0 | Some c \<Rightarrow> c) + count_list gs g)
      else None)"
proof (induction gs arbitrary: m)
  case Nil
  show ?case
  proof (cases "map_of m g")
    case None
    then show ?thesis by (simp add: map_of_None_keys)
  next
    case (Some c)
    then have "g \<in> fst ` set m"
      using map_of_None_keys [of m g] by simp
    with Some show ?thesis by simp
  qed
next
  case (Cons x gs)
  show ?case
    by (simp add: Cons.IH [of "bump x m"] bump_keyset bump_get)
qed

lemma foldl_foldl_concat:
  "foldl (\<lambda>a x. foldl f a (h x)) a xs = foldl f a (concat (map h xs))"
  by (induction xs arbitrary: a) simp_all

lemma countGenres_concat:
  "countGenres k rows = foldl (\<lambda>m g. bump g m) [] (concat (map (genreParts k) rows))"
  unfolding countGenres_def by (rule foldl_foldl_concat)

lemma countGenres_keys: "map fst (countGenres k rows) = firstSeen (concat (map (genreParts k) rows))"
  by (simp add: countGenres_concat fold_bump_keys)

lemma countGenres_count:
  assumes "(g, c) \<in> set (countGenres k rows)"
  shows "c = count_list (concat (map (genreParts k) rows)) g"
proof -
  have "distinct (map fst (countGenres k rows))"
    by (simp add: countGenres_keys distinct_firstSeen)
  with assms have "map_of (countGenres k rows) g = Some c" by simp
  then show ?thesis
    by (simp add: countGenres_concat fold_bump_get split: if_splits)
qed
lemma genre_of_records:
  "map (genre \<circ> (\<lambda>(g, c). \<lparr>genre = g, count = c\<rparr>)) m = map fst m"
  by (induction m) auto

lemma normalizeGenreKey_nonempty: "normalizeGenreKey row \<noteq> Some []"
proof
  assume "normalizeGenreKey row = Some []"
  then have "toLowerCase [] = ''genres'' \<or> toLowerCase [] = ''genre''"
    by (auto simp: normalizeGenreKey_def find_Some_iff Let_def split: option.splits)
  then show False by (simp add: toLowerCase_def)
qed

lemma categoryRecords_genres: "map genre (categoryRecords rows) = firstSeen (allGenres rows)"
proof (cases rows)
  case Nil
  then show ?thesis by (simp add: categoryRecords_def allGenres_def)
next
  case (Cons row0 rest)
  show ?thesis
  proof (cases "normalizeGenreKey (Some row0)")
    case None
    with Cons show ?thesis by (simp add: categoryRecords_def allGenres_def)
  next
    case (Some k)
    then have "k \<noteq> []" using normalizeGenreKey_nonempty [of "Some row0"] by auto
    with Cons Some countGenres_keys [of k rows] show ?thesis
      by (simp add: categoryRecords_def allGenres_def genre_of_records)
  qed
qed

lemma categoryRecords_counts:
  assumes "r \<in> set (categoryRecords rows)"
  shows "count r = count_list (allGenres rows) (genre r)"
proof (cases rows)
  case Nil
  with assms show ?thesis by (simp add: categoryRecords_def)
next
  case (Cons row0 rest)
  show ?thesis
  proof (cases "normalizeGenreKey (Some row0)")
    case None
    with Cons assms show ?thesis by (simp add: categoryRecords_def)
  next
    case (Some k)
    then have "k \<noteq> []" using normalizeGenreKey_nonempty [of "Some row0"] by auto
    with Cons Some assms
    have "r \<in> (\<lambda>(g, c). \<lparr>genre = g, count = c\<rparr>) ` set (countGenres k rows)"
      by (simp add: categoryRecords_def)
    then obtain g c where gc: "(g, c) \<in> set (countGenres k rows)" "r = \<lparr>genre = g, count = c\<rparr>"
      by auto
    from countGenres_count [OF gc(1)] gc(2) Cons Some show ?thesis
      by (simp add: allGenres_def)
  qed
qed

text \<open>
  C3. The records are built in the order in which the categories are first met, each
  with the number of its occurrences. The result is the first \<open>topN\<close> of these records
  after a sort that rearranges them in descending order of count and keeps records of
  equal count in their order; with at most \<open>topN\<close> categories all are returned. On
  the rows \<open>Fantasy, Drama\<close>, \<open>Drama\<close>, \<open>Fantasy\<close> with \<open>topN = 2\<close> the result is
  Fantasy 2, Drama 2.
\<close>

theorem aggregateGenres_ranking:
  assumes "0 \<le> topN"
  shows "map genre (categoryRecords rows) = firstSeen (allGenres rows) \<and>
         (\<forall>r \<in> set (categoryRecords rows). count r = count_list (allGenres rows) (genre r)) \<and>
         mset (jsSort byCountDescending (categoryRecords rows)) = mset (categoryRecords rows) \<and>
         sorted_wrt (\<lambda>a b. count a \<ge> count b) (jsSort byCountDescending (categoryRecords rows)) \<and>
         (\<forall>k. filter (\<lambda>r. count r = k) (jsSort byCountDescending (categoryRecords rows)) =
               filter (\<lambda>r. count r = k) (categoryRecords rows)) \<and>
         aggregateGenres rows topN =
           take (nat topN) (jsSort byCountDescending (categoryRecords rows)) \<and>
         (length (categoryRecords rows) \<le> nat topN \<longrightarrow>
            aggregateGenres rows topN = jsSort byCountDescending (categoryRecords rows)) \<and>
         aggregateGenres
           [[(''genre'', ''Fantasy, Drama'')], [(''genre'', ''Drama'')], [(''genre'', ''Fantasy'')]] 2 =
           [\<lparr>genre = ''Fantasy'', count = 2\<rparr>, \<lparr>genre = ''Drama'', count = 2\<rparr>]"
proof -
  let ?recs = "categoryRecords rows"
  let ?ranked = "jsSort byCountDescending ?recs"
  have m: "mset ?ranked = mset ?recs"
    by (simp add: jsSort_sort_key)
  have s: "sorted_wrt (\<lambda>a b. count a \<ge> count b) ?ranked"
    using sorted_sort_key [of "\<lambda>r. - int (count r)" ?recs]
    by (simp add: sorted_neg_count jsSort_sort_key)
  have st: "filter (\<lambda>r. count r = k) ?ranked = filter (\<lambda>r. count r = k) ?recs" for k
    using sort_key_stable [of "\<lambda>r. - int (count r)" "- int k" ?recs]
    by (simp add: jsSort_sort_key)
  have t: "aggregateGenres rows topN = take (nat topN) ?ranked"
    using assms by (simp add: aggregateGenres_ranked slice_take)
  have a: "aggregateGenres rows topN = ?ranked" if "length ?recs \<le> nat topN"
  proof -
    from m have "length ?ranked = length ?recs" by (metis size_mset)
    with that t show ?thesis by simp
  qed
  have e: "aggregateGenres
           [[(''genre'', ''Fantasy, Drama'')], [(''genre'', ''Drama'')], [(''genre'', ''Fantasy'')]] 2 =
           [\<lparr>genre = ''Fantasy'', count = 2\<rparr>, \<lparr>genre = ''Drama'', count = 2\<rparr>]"
    by code_simp
  from categoryRecords_genres [of rows] categoryRecords_counts [of _ rows] m s st t a e
  show ?thesis by blast
qed

theorem aggregateGenres_ranking_witness:
  "(0::int) \<le> 1 \<and>
   aggregateGenres
     [[(''Genres'', ''Drama'')], [(''Genres'', ''Fantasy , Drama'')], [(''Genres'', '''')]] 1 =
     [\<lparr>genre = ''Drama'', count = 2\<rparr>]"
proof -
  have h: "(0::int) \<le> 1" by simp
  have r: "take (nat 1) (jsSort byCountDescending (categoryRecords
             [[(''Genres'', ''Drama'')], [(''Genres'', ''Fantasy , Drama'')], [(''Genres'', '''')]])) =
           [\<lparr>genre = ''Drama'', count = 2\<rparr>]"
    by code_simp
  from aggregateGenres_ranking [OF h,
      of "[[(''Genres'', ''Drama'')], [(''Genres'', ''Fantasy , Drama'')], [(''Genres'', '''')]]"] r h
  show ?thesis by simp
qed

text \<open>
  C8. The aggregator is a function of the rows and \<open>topN\<close>. Its result does not depend
  on how \<open>sort\<close> is implemented either: any two arrays that are a stable descending
  rearrangement of the category records are equal, so they give the same first
  \<open>topN\<close> records, those that \<open>aggregateGenres\<close> returns; and sorting the sorted records
  again leaves them as they are.
\<close>

theorem aggregateGenres_deterministic:
  assumes "stableDescending (categoryRecords rows) s1"
    and "stableDescending (categoryRecords rows) s2"
  shows "s1 = s2 \<and>
         slice s1 0 topN = aggregateGenres rows topN \<and>
         slice s2 0 topN = aggregateGenres rows topN \<and>
         jsSort byCountDescending (jsSort byCountDescending (categoryRecords rows)) =
           jsSort byCountDescending (categoryRecords rows)"
proof -
  have "stableDescending (jsSort byCountDescending (categoryRecords rows))
          (jsSort byCountDescending (jsSort byCountDescending (categoryRecords rows)))"
    by (rule jsSort_stableDescending)
  moreover have "stableDescending (jsSort byCountDescending (categoryRecords rows))
                   (jsSort byCountDescending (categoryRecords rows))"
    using jsSort_stableDescending [of "categoryRecords rows"]
    by (simp add: stableDescending_def list_all_iff)
  ultimately have "jsSort byCountDescending (jsSort byCountDescending (categoryRecords rows)) =
                     jsSort byCountDescending (categoryRecords rows)"
    using stableDescending_unique by metis
  with stableDescending_unique [OF assms(1)] stableDescending_unique [OF assms(2)]
  show ?thesis by (simp add: aggregateGenres_ranked)
qed

theorem aggregateGenres_deterministic_witness:
  "stableDescending
     (categoryRecords [[(''genre'', ''Fantasy, Drama'')], [(''genre'', ''Drama'')]])
     [\<lparr>genre = ''Drama'', count = 2\<rparr>, \<lparr>genre = ''Fantasy'', count = 1\<rparr>] \<and>
   slice [\<lparr>genre = ''Drama'', count = 2\<rparr>, \<lparr>genre = ''Fantasy'', count = 1\<rparr>] 0 1 =
     aggregateGenres [[(''genre'', ''Fantasy, Drama'')], [(''genre'', ''Drama'')]] 1"
proof -
  have c: "categoryRecords [[(''genre'', ''Fantasy, Drama'')], [(''genre'', ''Drama'')]] =
             [\<lparr>genre = ''Fantasy'', count = 1\<rparr>, \<lparr>genre = ''Drama'', count = 2\<rparr>]"
    by code_simp
  have h: "stableDescending
     (categoryRecords [[(''genre'', ''Fantasy, Drama'')], [(''genre'', ''Drama'')]])
     [\<lparr>genre = ''Drama'', count = 2\<rparr>, \<lparr>genre = ''Fantasy'', count = 1\<rparr>]"
    unfolding c by (simp add: stableDescending_def)
  from aggregateGenres_deterministic [OF h h, of 1] h show ?thesis by simp
qed

section \<open>Binning Aggregator: the grid is dense\<close>

lemma sortInsert_ascending: "sortInsert ascending x ys = insort x ys"
  by (induction ys) (auto simp: ascending_def)

lemma jsSort_ascending: "jsSort ascending xs = sort xs"
  by (induction xs) (simp_all add: jsSort_def sortInsert_ascending)

lemma fold_setAdd_set: "set (foldl (\<lambda>s x. setAdd x s) s0 xs) = set s0 \<union> set xs"
  by (induction xs arbitrary: s0) (auto simp: setAdd_def)

lemma fold_setAdd_distinct: "distinct s0 \<Longrightarrow> distinct (foldl (\<lambda>s x. setAdd x s) s0 xs)"
  by (induction xs arbitrary: s0) (auto simp: setAdd_def)

lemma newSet_set: "set (newSet xs) = set xs"
  by (simp add: newSet_def fold_setAdd_set)

lemma newSet_distinct: "distinct (newSet xs)"
  by (simp add: newSet_def fold_setAdd_distinct)

lemma pushCell_row:
  "fst (foldl (pushCell counts dec) st bins) =
     fst st @ map (\<lambda>bin. \<lparr>decade = dec, ratingBin = bin,
                            heatCell.count = (case mapGet counts (dec, bin) of None \<Rightarrow> 0 | Some c \<Rightarrow> c)\<rparr>) bins"
  by (induction bins arbitrary: st) (simp_all add: pushCell_def Let_def)

lemma pushCell_grid:
  "fst (foldl (\<lambda>st dec. foldl (pushCell counts dec) st bins) st decs) =
     fst st @ concat (map (\<lambda>dec. map (\<lambda>bin. \<lparr>decade = dec, ratingBin = bin,
                            heatCell.count = (case mapGet counts (dec, bin) of None \<Rightarrow> 0 | Some c \<Rightarrow> c)\<rparr>) bins) decs)"
  by (induction decs arbitrary: st) (simp_all add: pushCell_row)

lemma product_concat: "concat (map (\<lambda>x. map (Pair x) ys) xs) = List.product xs ys"
  by (induction xs) simp_all

lemma tally_lookup:
  "(case mapGet (foldl (\<lambda>m d. bump (f d) m) [] ds) k of None \<Rightarrow> 0 | Some c \<Rightarrow> c) =
     length (filter (\<lambda>d. f d = k) ds)"
proof -
  have "foldl (\<lambda>m d. bump (f d) m) [] ds = foldl (\<lambda>m g. bump g m) [] (map f ds)"
    by (simp add: foldl_map)
  moreover have "count_list (map f ds) k = length (filter (\<lambda>d. f d = k) ds)"
    by (induction ds) auto
  ultimately show ?thesis
    by (auto simp: mapGet_def fold_bump_get)
qed

lemma gridOf_data:
  "heatPrepared.data (gridOf items) =
     concat (map (\<lambda>dec. map (\<lambda>bin. \<lparr>decade = dec, ratingBin = bin,
        heatCell.count = length (filter (\<lambda>d. (decade d, ratingBin d) = (dec, bin)) items)\<rparr>)
        (ratingBins (gridOf items))) (decades (gridOf items)))"
  by (simp add: gridOf_def Let_def pushCell_grid tally_lookup)

lemma gridOf_decades:
  "set (decades (gridOf items)) = decade ` set items \<and> distinct (decades (gridOf items)) \<and>
   sorted (decades (gridOf items))"
  by (simp add: gridOf_def Let_def jsSort_ascending newSet_set newSet_distinct)

lemma gridOf_ratingBins:
  "set (ratingBins (gridOf items)) = ratingBin ` set items \<and>
   distinct (ratingBins (gridOf items)) \<and> sorted (ratingBins (gridOf items))"
  by (simp add: gridOf_def Let_def jsSort_ascending newSet_set newSet_distinct)

lemma gridOf_keys:
  "map (\<lambda>c. (decade c, ratingBin c)) (heatPrepared.data (gridOf items)) =
     List.product (decades (gridOf items)) (ratingBins (gridOf items))"
proof -
  have "map (\<lambda>c. (decade c, ratingBin c)) (heatPrepared.data (gridOf items)) =
          concat (map (\<lambda>dec. map (Pair dec) (ratingBins (gridOf items))) (decades (gridOf items)))"
    by (subst gridOf_data) (simp add: map_concat comp_def)
  then show ?thesis by (simp add: product_concat)
qed

lemma gridOf_counts:
  assumes "c \<in> set (heatPrepared.data (gridOf items))"
  shows "heatCell.count c =
           length (filter (\<lambda>d. decade d = decade c \<and> ratingBin d = ratingBin c) items)"
  using assms by (subst (asm) gridOf_data) auto

lemma heatmapPrepared_gridOf:
  "heatmapPrepared B rows minYear maxYear = gridOf (heatItems B rows minYear maxYear)"
proof -
  have "gridOf [] = emptyGrid"
    by (simp add: gridOf_def emptyGrid_def newSet_def jsSort_def)
  then show ?thesis
    by (cases rows) (simp_all add: heatmapPrepared_def heatItems_def Let_def)
qed

text \<open>
  C2. The grid of the heatmap is the product of the two sorted lists of distinct
  decades and distinct rating buckets seen in the filtered rows: its cells carry exactly
  these pairs, each once, so their number is the product of the two numbers of distinct
  values; the count of a cell is the number of filtered rows that fall into it, which
  is 0 for a pair that no row has.
\<close>

theorem heatmap_dense_grid:
  "let p = heatmapPrepared B rows minYear maxYear;
       its = heatItems B rows minYear maxYear
   in set (decades p) = decade ` set its \<and> distinct (decades p) \<and>
      set (ratingBins p) = ratingBin ` set its \<and> distinct (ratingBins p) \<and>
      map (\<lambda>c. (decade c, ratingBin c)) (heatPrepared.data p) = List.product (decades p) (ratingBins p) \<and>
      set (map (\<lambda>c. (decade c, ratingBin c)) (heatPrepared.data p)) =
        (decade ` set its) \<times> (ratingBin ` set its) \<and>
      distinct (map (\<lambda>c. (decade c, ratingBin c)) (heatPrepared.data p)) \<and>
      length (heatPrepared.data p) = card (decade ` set its) * card (ratingBin ` set its) \<and>
      (\<forall>c \<in> set (heatPrepared.data p). heatCell.count c =
          length (filter (\<lambda>d. decade d = decade c \<and> ratingBin d = ratingBin c) its))"
proof -
  define its where "its = heatItems B rows minYear maxYear"
  define p where "p = gridOf its"
  have k: "map (\<lambda>c. (decade c, ratingBin c)) (heatPrepared.data p) = List.product (decades p) (ratingBins p)"
    unfolding p_def by (rule gridOf_keys)
  have d: "set (decades p) = decade ` set its" "distinct (decades p)"
    and b: "set (ratingBins p) = ratingBin ` set its" "distinct (ratingBins p)"
    unfolding p_def using gridOf_decades [of its] gridOf_ratingBins [of its] by simp_all
  have s: "set (map (\<lambda>c. (decade c, ratingBin c)) (heatPrepared.data p)) =
             (decade ` set its) \<times> (ratingBin ` set its)"
    unfolding k using d(1) b(1) by simp
  have dk: "distinct (map (\<lambda>c. (decade c, ratingBin c)) (heatPrepared.data p))"
    unfolding k using d(2) b(2) by (rule distinct_product)
  have "length (heatPrepared.data p) = length (List.product (decades p) (ratingBins p))"
    using k by (metis length_map)
  also have "\<dots> = length (decades p) * length (ratingBins p)"
    by (rule length_product)
  also have "length (decades p) = card (decade ` set its)"
    using d by (metis distinct_card)
  also have "length (ratingBins p) = card (ratingBin ` set its)"
    using b by (metis distinct_card)
  finally have l: "length (heatPrepared.data p) = card (decade ` set its) * card (ratingBin ` set its)" .
  have c: "\<forall>c \<in> set (heatPrepared.data p). heatCell.count c =
          length (filter (\<lambda>d. decade d = decade c \<and> ratingBin d = ratingBin c) its)"
    unfolding p_def using gridOf_counts by blast
  from k d b s dk l c show ?thesis
    unfolding Let_def heatmapPrepared_gridOf its_def [symmetric] p_def [symmetric] by blast
qed

theorem heatmap_dense_grid_witness:
  "map (\<lambda>c. (decade c, ratingBin c, heatCell.count c))
     (heatPrepared.data (heatmapPrepared \<lparr>stringToNumber = (\<lambda>s. JNaN), toStringOf = (\<lambda>v. [])\<rparr>
        [[(''year'', JNum 1995), (''rating'', JNum (16 / 5))],
         [(''year'', JNum 2001), (''rating'', JNum (18 / 5))],
         [(''year'', JNum 2004), (''rating'', JNum (49 / 10))]] (JNum 1900) JNull)) =
     [(1990, 3, 1), (1990, 7 / 2, 0), (1990, 9 / 2, 0),
      (2000, 3, 0), (2000, 7 / 2, 1), (2000, 9 / 2, 1)] \<and>
   distinct (map (\<lambda>c. (decade c, ratingBin c))
     (heatPrepared.data (heatmapPrepared \<lparr>stringToNumber = (\<lambda>s. JNaN), toStringOf = (\<lambda>v. [])\<rparr>
        [[(''year'', JNum 1995), (''rating'', JNum (16 / 5))],
         [(''year'', JNum 2001), (''rating'', JNum (18 / 5))],
         [(''year'', JNum 2004), (''rating'', JNum (49 / 10))]] (JNum 1900) JNull)))"
proof -
  have e: "map (\<lambda>c. (decade c, ratingBin c, heatCell.count c))
     (heatPrepared.data (heatmapPrepared \<lparr>stringToNumber = (\<lambda>s. JNaN), toStringOf = (\<lambda>v. [])\<rparr>
        [[(''year'', JNum 1995), (''rating'', JNum (16 / 5))],
         [(''year'', JNum 2001), (''rating'', JNum (18 / 5))],
         [(''year'', JNum 2004), (''rating'', JNum (49 / 10))]] (JNum 1900) JNull)) =
     [(1990, 3, 1), (1990, 7 / 2, 0), (1990, 9 / 2, 0),
      (2000, 3, 0), (2000, 7 / 2, 1), (2000, 9 / 2, 1)]"
    by code_simp
  from heatmap_dense_grid [of "\<lparr>stringToNumber = (\<lambda>s. JNaN), toStringOf = (\<lambda>v. [])\<rparr>"
        "[[(''year'', JNum 1995), (''rating'', JNum (16 / 5))],
         [(''year'', JNum 2001), (''rating'', JNum (18 / 5))],
         [(''year'', JNum 2004), (''rating'', JNum (49 / 10))]]" "JNum 1900" JNull] e
  show ?thesis unfolding Let_def by blast
qed

section \<open>Dimension Selector: how many dimensions\<close>

lemma slice0: "slice xs 0 e = take (relIndex (length xs) e) xs"
  by (simp add: slice_def relIndex_def)

lemma relIndex_le: "relIndex len e \<le> len"
  by (auto simp: relIndex_def max_def)

lemma length_slice0: "length (slice xs 0 e) = relIndex (length xs) e"
  by (simp add: slice0 relIndex_le)

lemma distinct_slice0: "distinct xs \<Longrightarrow> distinct (slice xs 0 e)"
  by (simp add: slice0)

lemma set_slice0: "set (slice xs 0 e) \<subseteq> set xs"
  by (simp add: slice0 set_take_subset)

lemma int_length_slice0:
  "int (length (slice xs 0 e)) =
     (if e < 0 then max (int (length xs) + e) 0 else min e (int (length xs)))"
  by (auto simp: length_slice0 relIndex_def max_def min_def)

lemma selectDims_length_gen:
  "int (length (selectDims c maxDims minDims)) =
     (let n = int (length c);
          a = (if 1 \<le> maxDims then min maxDims n else 0)
      in if a < minDims then min minDims n else a)"
proof -
  define n where "n = int (length c)"
  define d1 where "d1 = slice c 0 (max 1 (min maxDims n))"
  define d2 where "d2 = (if int (length d1) > maxDims then slice d1 0 maxDims else d1)"
  define d3 where "d3 = (if int (length d2) < minDims then slice c 0 (min minDims n) else d2)"
  have sel: "selectDims c maxDims minDims = d3"
    by (simp add: selectDims_def Let_def d1_def d2_def d3_def n_def)
  have n0: "0 \<le> n" by (simp add: n_def)
  have l1: "int (length d1) = min (max 1 (min maxDims n)) n"
    unfolding d1_def int_length_slice0 n_def [symmetric] by simp
  have l2: "int (length d2) = (if 1 \<le> maxDims then min maxDims n else 0)"
  proof (cases "int (length d1) > maxDims")
    case True
    then have "int (length d2) = (if maxDims < 0 then max (int (length d1) + maxDims) 0
                                  else min maxDims (int (length d1)))"
      by (simp add: d2_def int_length_slice0)
    with True l1 n0 show ?thesis by (simp add: min_def max_def split: if_splits)
  next
    case False
    then have "int (length d2) = int (length d1)" by (simp add: d2_def)
    with False l1 n0 show ?thesis by (simp add: min_def max_def split: if_splits)
  qed
  have l3: "int (length d3) =
              (if int (length d2) < minDims then min minDims n else int (length d2))"
  proof (cases "int (length d2) < minDims")
    case True
    then have "\<not> min minDims (int (length c)) < 0" by simp
    with True show ?thesis
      by (simp add: d3_def int_length_slice0 n_def)
  next
    case False
    then show ?thesis by (simp add: d3_def)
  qed
  show ?thesis
    unfolding sel Let_def n_def [symmetric] l3 l2 by simp
qed

lemma selectDims_length:
  assumes "0 \<le> maxDims" and "minDims \<le> maxDims"
  shows "length (selectDims c maxDims minDims) = nat (min maxDims (int (length c)))"
proof -
  have "int (length (selectDims c maxDims minDims)) = min maxDims (int (length c))"
    using assms unfolding selectDims_length_gen Let_def by (simp add: min_def)
  then show ?thesis by linarith
qed

lemma selectDims_nonempty:
  assumes "c \<noteq> []"
  shows "selectDims c maxDims minDims \<noteq> [] \<longleftrightarrow> 1 \<le> maxDims \<or> 1 \<le> minDims"
proof -
  from assms have n: "1 \<le> int (length c)"
    by (cases c) simp_all
  have "0 < int (length (selectDims c maxDims minDims)) \<longleftrightarrow> 1 \<le> maxDims \<or> 1 \<le> minDims"
    unfolding selectDims_length_gen Let_def using n by (auto simp: min_def)
  then show ?thesis by (simp only: of_nat_0_less_iff length_greater_0_conv)
qed

lemma distinct_selectDims: "distinct c \<Longrightarrow> distinct (selectDims c maxDims minDims)"
  by (simp add: selectDims_def Let_def distinct_slice0)

lemma fold_setAdd_id: "distinct (s0 @ xs) \<Longrightarrow> foldl (\<lambda>s x. setAdd x s) s0 xs = s0 @ xs"
  by (induction xs arbitrary: s0) (auto simp: setAdd_def)

lemma newSet_id: "distinct xs \<Longrightarrow> newSet xs = xs"
  using fold_setAdd_id [of "[]" xs] by (simp add: newSet_def)

lemma mset_sortInsert: "mset (sortInsert cmp x ys) = add_mset x (mset ys)"
  by (induction ys) auto

lemma mset_jsSort: "mset (jsSort cmp xs) = mset xs"
  by (induction xs) (simp_all add: jsSort_def mset_sortInsert)

lemma set_jsSort: "set (jsSort cmp xs) = set xs"
  using mset_jsSort [of cmp xs] by (metis set_mset_mset)

lemma firstAlias_mem: "firstAlias keySet as = Some k \<Longrightarrow> k \<in> set keySet"
proof (induction as)
  case Nil
  then show ?case by simp
next
  case (Cons a as)
  then show ?case
    by (auto simp: find_Some_iff split: option.splits if_splits)
qed

lemma preferredOf_subset: "set (preferredOf keySet) \<subseteq> set keySet"
  by (auto simp: preferredOf_def List.map_filter_def firstAlias_mem)

lemma combinedOf_set: "set (combinedOf stats) = key ` set stats"
proof -
  have "set (preferredOf (newSet (map key stats))) \<subseteq> key ` set stats"
    using preferredOf_subset [of "newSet (map key stats)"] by (simp add: newSet_set)
  then show ?thesis
    by (auto simp: combinedOf_def Let_def fold_setAdd_set set_jsSort)
qed

lemma combinedOf_distinct: "distinct (combinedOf stats)"
  by (simp add: combinedOf_def Let_def fold_setAdd_distinct)

lemma combinedOf_length_le: "length (combinedOf stats) \<le> length stats"
proof -
  have "length (combinedOf stats) = card (key ` set stats)"
    using combinedOf_distinct [of stats] combinedOf_set [of stats] by (metis distinct_card)
  also have "\<dots> \<le> card (set stats)"
    by (rule card_image_le) simp
  also have "\<dots> \<le> length stats"
    by (rule card_length)
  finally show ?thesis .
qed

lemma combinedOf_length:
  assumes "distinct (map key stats)"
  shows "length (combinedOf stats) = length stats"
proof -
  have "length (combinedOf stats) = card (key ` set stats)"
    using combinedOf_distinct [of stats] combinedOf_set [of stats] by (metis distinct_card)
  also have "\<dots> = card (set (map key stats))" by simp
  also have "\<dots> = length (map key stats)"
    using assms by (rule distinct_card)
  finally show ?thesis by simp
qed

lemma key_statOf: "key (statOf rows k) = k"
  by (simp add: statOf_def Let_def)

lemma statsOf_keys_distinct:
  assumes "distinct keys"
  shows "distinct (map key (statsOf rows keys))"
proof -
  have "map key (map (statOf rows) (numericCandidates rows keys)) = numericCandidates rows keys"
    by (simp add: key_statOf comp_def)
  moreover have "distinct (numericCandidates rows keys)"
    using assms by (simp add: numericCandidates_def)
  ultimately have "distinct (map key (map (statOf rows) (numericCandidates rows keys)))"
    by simp
  then show ?thesis
    unfolding statsOf_def by (intro distinct_map_filter)
qed

lemma parallelPrepared_dims:
  "dims (parallelPrepared B maxDims minDims maxLines rows) =
     selectDims (combinedOf (survivors rows)) maxDims minDims \<or> rows = []"
proof (cases rows)
  case Nil
  then show ?thesis by simp
next
  case (Cons row0 rest)
  have "distinct (selectDims (combinedOf (statsOf rows (objectKeys row0))) maxDims minDims)"
    by (simp add: distinct_selectDims combinedOf_distinct)
  with Cons show ?thesis
    by (simp add: parallelPrepared_def survivors_def Let_def newSet_id)
qed

lemma survivors_keys_distinct:
  assumes "\<forall>r \<in> set rows. distinct (objectKeys r)"
  shows "distinct (map key (survivors rows))"
proof (cases rows)
  case Nil
  then show ?thesis by (simp add: survivors_def)
next
  case (Cons row0 rest)
  with assms have "distinct (objectKeys row0)" by simp
  then show ?thesis
    using Cons by (simp add: survivors_def statsOf_keys_distinct)
qed

lemma parallelPrepared_dims_length:
  "length (dims (parallelPrepared B maxDims minDims maxLines rows)) =
     length (selectDims (combinedOf (survivors rows)) maxDims minDims)"
proof (cases rows)
  case Nil
  have "int (length (selectDims [] maxDims minDims)) = 0"
    unfolding selectDims_length_gen Let_def by simp
  moreover have "combinedOf [] = []"
    using combinedOf_set [of "[]"] by simp
  ultimately show ?thesis
    using Nil by (simp add: parallelPrepared_def survivors_def)
next
  case (Cons row0 rest)
  with parallelPrepared_dims [of B maxDims minDims maxLines rows] show ?thesis by simp
qed

text \<open>
  C1. For a configuration with \<open>minDims \<le> maxDims\<close> (and \<open>maxDims\<close> not negative) and
  rows that are objects, the number of selected dimensions is the smaller of \<open>maxDims\<close>
  and the number of surviving numeric candidates: at least \<open>min(minDims, survivors)\<close>,
  at most \<open>maxDims\<close>, and never more than there are survivors.
\<close>

theorem selected_dimension_count:
  assumes "0 \<le> maxDims" and "minDims \<le> maxDims"
    and "list_all (\<lambda>r. distinct (objectKeys r)) rows"
  shows "min minDims (int (length (survivors rows)))
           \<le> int (length (dims (parallelPrepared B maxDims minDims maxLines rows))) \<and>
         int (length (dims (parallelPrepared B maxDims minDims maxLines rows))) \<le> maxDims \<and>
         length (dims (parallelPrepared B maxDims minDims maxLines rows))
           \<le> length (survivors rows) \<and>
         length (dims (parallelPrepared B maxDims minDims maxLines rows)) =
           nat (min maxDims (int (length (survivors rows))))"
proof -
  from assms(3) have "\<forall>r \<in> set rows. distinct (objectKeys r)"
    by (simp add: list_all_iff)
  then have "length (combinedOf (survivors rows)) = length (survivors rows)"
    by (intro combinedOf_length survivors_keys_distinct)
  then have "length (dims (parallelPrepared B maxDims minDims maxLines rows)) =
               nat (min maxDims (int (length (survivors rows))))"
    using selectDims_length [OF assms(1,2), of "combinedOf (survivors rows)"]
    by (simp add: parallelPrepared_dims_length)
  with assms(1,2) show ?thesis by linarith
qed

theorem selected_dimension_count_witness:
  "(0::int) \<le> 6 \<and> (4::int) \<le> 6 \<and>
   list_all (\<lambda>r. distinct (objectKeys r))
     [[(''id'', JNum 1), (''title'', JStr ''Dune''), (''pages'', JNum 412), (''rating'', JNum 4)],
      [(''id'', JNum 2), (''title'', JStr ''Emma''), (''pages'', JNum 474), (''rating'', JNull)]] \<and>
   length (survivors
     [[(''id'', JNum 1), (''title'', JStr ''Dune''), (''pages'', JNum 412), (''rating'', JNum 4)],
      [(''id'', JNum 2), (''title'', JStr ''Emma''), (''pages'', JNum 474), (''rating'', JNull)]]) = 1 \<and>
   length (dims (parallelPrepared \<lparr>stringToNumber = (\<lambda>s. JNaN), toStringOf = (\<lambda>v. [])\<rparr> 6 4 (JNum 550)
     [[(''id'', JNum 1), (''title'', JStr ''Dune''), (''pages'', JNum 412), (''rating'', JNum 4)],
      [(''id'', JNum 2), (''title'', JStr ''Emma''), (''pages'', JNum 474), (''rating'', JNull)]])) = 1"
proof -
  have h1: "(0::int) \<le> 6" and h2: "(4::int) \<le> 6" by simp_all
  have h3: "list_all (\<lambda>r. distinct (objectKeys r))
     [[(''id'', JNum 1), (''title'', JStr ''Dune''), (''pages'', JNum 412), (''rating'', JNum 4)],
      [(''id'', JNum 2), (''title'', JStr ''Emma''), (''pages'', JNum 474), (''rating'', JNull)]]"
    by (simp add: objectKeys_def)
  have n: "length (survivors
     [[(''id'', JNum 1), (''title'', JStr ''Dune''), (''pages'', JNum 412), (''rating'', JNum 4)],
      [(''id'', JNum 2), (''title'', JStr ''Emma''), (''pages'', JNum 474), (''rating'', JNull)]]) = 1"
    by code_simp
  from selected_dimension_count [OF h1 h2 h3,
      of "\<lparr>stringToNumber = (\<lambda>s. JNaN), toStringOf = (\<lambda>v. [])\<rparr>" "JNum 550"] n h3
  show ?thesis by simp
qed

text \<open>
  C9 (as the code has it). With a surviving numeric candidate, a dimension is selected
  exactly when \<open>maxDims\<close> or \<open>minDims\<close> is at least 1: the cut to \<open>maxDims\<close> that follows
  the clamp \<open>Math.max(1, ...)\<close> takes the one picked dimension away again when
  \<open>maxDims\<close> is below 1, and only a \<open>minDims\<close> of at least 1 brings dimensions back.
\<close>

theorem some_dimension_selected:
  assumes "survivors rows \<noteq> []"
  shows "dims (parallelPrepared B maxDims minDims maxLines rows) \<noteq> []
           \<longleftrightarrow> 1 \<le> maxDims \<or> 1 \<le> minDims"
proof -
  from assms have "key ` set (survivors rows) \<noteq> {}" by simp
  then have "combinedOf (survivors rows) \<noteq> []"
    using combinedOf_set [of "survivors rows"] by (metis set_empty)
  from selectDims_nonempty [OF this, of maxDims minDims]
  have "0 < length (selectDims (combinedOf (survivors rows)) maxDims minDims)
          \<longleftrightarrow> 1 \<le> maxDims \<or> 1 \<le> minDims"
    by simp
  then have "0 < length (dims (parallelPrepared B maxDims minDims maxLines rows))
          \<longleftrightarrow> 1 \<le> maxDims \<or> 1 \<le> minDims"
    by (simp only: parallelPrepared_dims_length)
  then show ?thesis by simp
qed

theorem some_dimension_selected_witness:
  "survivors [[(''pages'', JNum 412)]] \<noteq> [] \<and>
   dims (parallelPrepared \<lparr>stringToNumber = (\<lambda>s. JNaN), toStringOf = (\<lambda>v. [])\<rparr> 1 0 (JNum 550)
     [[(''pages'', JNum 412)]]) \<noteq> []"
proof -
  have h: "survivors [[(''pages'', JNum 412)]] \<noteq> []"
    by code_simp
  from some_dimension_selected [OF h,
      of "\<lparr>stringToNumber = (\<lambda>s. JNaN), toStringOf = (\<lambda>v. [])\<rparr>" 1 0 "JNum 550"] h
  show ?thesis by simp
qed

text \<open>
  C9 as stated fails: with \<open>maxDims = 0\<close> and \<open>minDims = 0\<close> a row set with one surviving
  numeric candidate gets no dimension at all.
\<close>

theorem maxDims_zero_selects_nothing:
  "length (survivors [[(''pages'', JNum 412)]]) = 1 \<and>
   dims (parallelPrepared \<lparr>stringToNumber = (\<lambda>s. JNaN), toStringOf = (\<lambda>v. [])\<rparr> 0 0 (JNum 550)
     [[(''pages'', JNum 412)]]) = []"
  by code_simp

section \<open>Prepared projection: the majority rule\<close>

lemma recStep_fold:
  "foldl (recStep r) (rec, m) ds =
     (foldl (\<lambda>rec d. mapSet d (if isFiniteNumber (cell r d) then RNum (numOf (cell r d)) else RNull) rec)
        rec ds,
      m + missingCount ds r)"
  by (induction ds arbitrary: rec m) (simp_all add: recStep_def Let_def missingCount_def)

lemma fold_mapSet_get:
  "map_of (foldl (\<lambda>rec d. mapSet d (f d) rec) rec ds) k =
     (if k \<in> set ds then Some (f k) else map_of rec k)"
  by (induction ds arbitrary: rec) (auto simp: mapSet_get)

lemma mkRec_missing:
  "getProp (mkRec B tk ds r) ''__missing'' = Some (RNum (of_nat (missingCount ds r)))"
  by (simp add: mkRec_def Let_def recStep_fold getProp_def mapSet_get)

lemma mkRec_dim:
  assumes "d \<in> set ds" and "d \<noteq> ''__missing''"
  shows "getProp (mkRec B tk ds r) d =
           Some (if isFiniteNumber (cell r d) then RNum (numOf (cell r d)) else RNull)"
  using assms by (simp add: mkRec_def Let_def recStep_fold getProp_def mapSet_get fold_mapSet_get)

lemma mkRec_present:
  assumes "d \<in> set ds"
  shows "getProp (mkRec B tk ds r) d \<noteq> None"
proof (cases "d = ''__missing''")
  case True
  then show ?thesis by (simp add: mkRec_missing)
next
  case False
  with assms show ?thesis by (simp add: mkRec_dim)
qed

lemma keepRec_mkRec:
  "keepRec ds (mkRec B tk ds r) \<longleftrightarrow> missingCount ds r \<le> length ds div 2"
  by (simp add: keepRec_def mkRec_missing)

lemma capLines_subset: "set (capLines maxLines xs) \<subseteq> set xs"
  by (cases maxLines) (auto simp: capLines_def dest: set_slice0 [THEN subsetD])

lemma parallelPrepared_data:
  "set (data (parallelPrepared B maxDims minDims maxLines rows)) \<subseteq>
     {rec. keepRec (dims (parallelPrepared B maxDims minDims maxLines rows)) rec} \<inter>
     mkRec B (titleKey (parallelPrepared B maxDims minDims maxLines rows))
       (dims (parallelPrepared B maxDims minDims maxLines rows)) ` set rows"
proof (cases rows)
  case Nil
  then show ?thesis by (simp add: parallelPrepared_def)
next
  case (Cons row0 rest)
  define tk where "tk = pickKey (Some row0) titleCandidates"
  define ds where "ds = selectDims (combinedOf (statsOf rows (objectKeys row0))) maxDims minDims"
  have "distinct ds"
    by (simp add: ds_def distinct_selectDims combinedOf_distinct)
  then have p: "parallelPrepared B maxDims minDims maxLines rows =
      \<lparr>dims = ds, data = capLines maxLines (filter (keepRec ds) (map (mkRec B tk ds) rows)),
       titleKey = tk\<rparr>"
    using Cons by (simp add: parallelPrepared_def Let_def tk_def ds_def newSet_id)
  have "set (capLines maxLines (filter (keepRec ds) (map (mkRec B tk ds) rows))) \<subseteq>
          set (filter (keepRec ds) (map (mkRec B tk ds) rows))"
    by (rule capLines_subset)
  then show ?thesis
    unfolding p by auto
qed

text \<open>
  What holds of the projection for every input. Every record was built from an input
  row whose number of missing selected dimensions is at most half the number of
  dimensions (rounded down), and it has a property for every selected dimension; for a
  dimension of any name but \<open>__missing\<close> the property is the number of the row's cell,
  or \<open>null\<close> where the cell holds no finite number. The record of a row with more
  missing dimensions than that is not in the projection.
\<close>

theorem projection_majority_rule:
  "let p = parallelPrepared B maxDims minDims maxLines rows; ds = dims p
   in (\<forall>rec \<in> set (data p). \<exists>r \<in> set rows.
         rec = mkRec B (titleKey p) ds r \<and>
         missingCount ds r \<le> length ds div 2 \<and>
         (\<forall>d \<in> set ds. getProp rec d \<noteq> None \<and>
            (d \<noteq> ''__missing'' \<longrightarrow>
               getProp rec d =
                 Some (if isFiniteNumber (cell r d) then RNum (numOf (cell r d)) else RNull)))) \<and>
      (\<forall>r \<in> set rows. length ds div 2 < missingCount ds r \<longrightarrow>
         mkRec B (titleKey p) ds r \<notin> set (data p))"
proof -
  define p where "p = parallelPrepared B maxDims minDims maxLines rows"
  define ds where "ds = dims p"
  have sub: "set (data p) \<subseteq> {rec. keepRec ds rec} \<inter> mkRec B (titleKey p) ds ` set rows"
    unfolding p_def ds_def by (rule parallelPrepared_data)
  have a: "\<exists>r \<in> set rows.
         rec = mkRec B (titleKey p) ds r \<and>
         missingCount ds r \<le> length ds div 2 \<and>
         (\<forall>d \<in> set ds. getProp rec d \<noteq> None \<and>
            (d \<noteq> ''__missing'' \<longrightarrow>
               getProp rec d =
                 Some (if isFiniteNumber (cell r d) then RNum (numOf (cell r d)) else RNull)))"
    if "rec \<in> set (data p)" for rec
  proof -
    from that sub obtain r where r: "r \<in> set rows" "rec = mkRec B (titleKey p) ds r"
      and k: "keepRec ds rec"
      by auto
    from k r(2) have "missingCount ds r \<le> length ds div 2"
      by (simp add: keepRec_mkRec)
    with r mkRec_present [of _ ds B "titleKey p" r] mkRec_dim [of _ ds B "titleKey p" r]
    show ?thesis by blast
  qed
  have b: "mkRec B (titleKey p) ds r \<notin> set (data p)"
    if "length ds div 2 < missingCount ds r" for r
  proof
    assume "mkRec B (titleKey p) ds r \<in> set (data p)"
    with sub have "keepRec ds (mkRec B (titleKey p) ds r)" by auto
    with that show False by (simp add: keepRec_mkRec)
  qed
  from a b show ?thesis
    unfolding Let_def p_def [symmetric] ds_def [symmetric] by blast
qed

theorem projection_majority_rule_witness:
  "map (\<lambda>rec. (getProp rec ''pages'', getProp rec ''rating''))
     (data (parallelPrepared \<lparr>stringToNumber = (\<lambda>s. JNaN), toStringOf = (\<lambda>v. [])\<rparr> 6 4 (JNum 550)
       [[(''pages'', JNum 412), (''rating'', JNum 4)],
        [(''pages'', JStr ''n/a''), (''rating'', JNull)],
        [(''pages'', JNum 474), (''rating'', JNull)],
        [(''pages'', JNum 120), (''rating'', JNum 3)],
        [(''pages'', JNum 300), (''rating'', JNum 5)]])) =
     [(Some (RNum 412), Some (RNum 4)), (Some (RNum 474), Some RNull),
      (Some (RNum 120), Some (RNum 3)), (Some (RNum 300), Some (RNum 5))] \<and>
   mkRec \<lparr>stringToNumber = (\<lambda>s. JNaN), toStringOf = (\<lambda>v. [])\<rparr> None [''rating'', ''pages'']
       [(''pages'', JStr ''n/a''), (''rating'', JNull)] \<notin>
     set (data (parallelPrepared \<lparr>stringToNumber = (\<lambda>s. JNaN), toStringOf = (\<lambda>v. [])\<rparr> 6 4 (JNum 550)
       [[(''pages'', JNum 412), (''rating'', JNum 4)],
        [(''pages'', JStr ''n/a''), (''rating'', JNull)],
        [(''pages'', JNum 474), (''rating'', JNull)],
        [(''pages'', JNum 120), (''rating'', JNum 3)],
        [(''pages'', JNum 300), (''rating'', JNum 5)]]))"
proof -
  define rows where "rows =
       [[(''pages'', JNum 412), (''rating'', JNum 4)],
        [(''pages'', JStr ''n/a''), (''rating'', JNull)],
        [(''pages'', JNum 474), (''rating'', JNull)],
        [(''pages'', JNum 120), (''rating'', JNum 3)],
        [(''pages'', JNum 300), (''rating'', JNum 5)]]"
  define B where "B = \<lparr>stringToNumber = (\<lambda>s. JNaN), toStringOf = (\<lambda>v. [])\<rparr>"
  define p where "p = parallelPrepared B 6 4 (JNum 550) rows"
  have d: "dims p = [''rating'', ''pages'']"
    unfolding p_def rows_def B_def by code_simp
  have t: "titleKey p = None"
    unfolding p_def rows_def B_def by code_simp
  have e: "map (\<lambda>rec. (getProp rec ''pages'', getProp rec ''rating'')) (data p) =
     [(Some (RNum 412), Some (RNum 4)), (Some (RNum 474), Some RNull),
      (Some (RNum 120), Some (RNum 3)), (Some (RNum 300), Some (RNum 5))]"
    unfolding p_def rows_def B_def by code_simp
  have m: "length [''rating'', ''pages''] div 2 <
             missingCount [''rating'', ''pages''] [(''pages'', JStr ''n/a''), (''rating'', JNull)]"
    by code_simp
  have r: "[(''pages'', JStr ''n/a''), (''rating'', JNull)] \<in> set rows"
    by (simp add: rows_def)
  from projection_majority_rule [of B 6 4 "JNum 550" rows]
  have "\<forall>r \<in> set rows. length (dims p) div 2 < missingCount (dims p) r \<longrightarrow>
          mkRec B (titleKey p) (dims p) r \<notin> set (data p)"
    unfolding Let_def p_def by blast
  with r m have "mkRec B None [''rating'', ''pages'']
                   [(''pages'', JStr ''n/a''), (''rating'', JNull)] \<notin> set (data p)"
    unfolding d t by blast
  with e show ?thesis
    unfolding p_def rows_def B_def by blast
qed

text \<open>
  C7. A retained row is to appear with every selected dimension present, the cell's
  number or \<open>null\<close>. The assignment \<open>rec.__missing = missing\<close> comes after the loop
  that writes the dimensions, so for a selected dimension named \<open>__missing\<close> the record
  holds the count of missing dimensions in place of the cell. In the three rows below
  the columns \<open>a\<close>, \<open>b\<close> and \<open>__missing\<close> are all selected and all rows are retained;
  the cells of \<open>__missing\<close> are \<open>null\<close>, 5 and 6, and the records hold 1, 0 and 0.
\<close>

theorem missing_dimension_overwritten:
  "dims (parallelPrepared \<lparr>stringToNumber = (\<lambda>s. JNaN), toStringOf = (\<lambda>v. [])\<rparr> 6 4 (JNum 550)
     [[(''a'', JNum 1), (''b'', JNum 2), (''__missing'', JNull)],
      [(''a'', JNum 3), (''b'', JNum 5), (''__missing'', JNum 5)],
      [(''a'', JNum 4), (''b'', JNum 9), (''__missing'', JNum 6)]]) =
     [''b'', ''a'', ''__missing''] \<and>
   map (\<lambda>r. cell r ''__missing'')
     [[(''a'', JNum 1), (''b'', JNum 2), (''__missing'', JNull)],
      [(''a'', JNum 3), (''b'', JNum 5), (''__missing'', JNum 5)],
      [(''a'', JNum 4), (''b'', JNum 9), (''__missing'', JNum 6)]] =
     [JNull, JNum 5, JNum 6] \<and>
   map (\<lambda>rec. (getProp rec ''a'', getProp rec ''b'', getProp rec ''__missing''))
     (data (parallelPrepared \<lparr>stringToNumber = (\<lambda>s. JNaN), toStringOf = (\<lambda>v. [])\<rparr> 6 4 (JNum 550)
       [[(''a'', JNum 1), (''b'', JNum 2), (''__missing'', JNull)],
        [(''a'', JNum 3), (''b'', JNum 5), (''__missing'', JNum 5)],
        [(''a'', JNum 4), (''b'', JNum 9), (''__missing'', JNum 6)]])) =
     [(Some (RNum 1), Some (RNum 2), Some (RNum 1)),
      (Some (RNum 3), Some (RNum 5), Some (RNum 0)),
      (Some (RNum 4), Some (RNum 9), Some (RNum 0))]"
  by code_simp

end
